theory Spec2Isabelle
  imports Complex_Main "HOL-Library.Multiset" "HOL-Library.Char_ord" "HOL-Library.List_Lexorder"
begin

section \<open>Python values and errors\<close>

text \<open>
  The exceptions that \<^verbatim>\<open>data/Editor.py\<close> can raise, either by a \<^verbatim>\<open>raise\<close> or
  \<^verbatim>\<open>assert\<close> of its own or through a Python or numpy primitive it calls.
  \<open>AssertionError\<close> and \<open>Exception\<close> carry the message of the source.
\<close>

datatype error =
    AssertionError string
  | Exception string
  | KeyError string
  | IndexError
  | TypeError
  | ValueError
  | OSError

text \<open>
  \<open>xs[i]\<close> on a Python sequence: positions \<open>0 .. len - 1\<close> are read directly,
  positions \<open>-len .. -1\<close> are read from the end, every other position raises.
\<close>

definition getitem :: "'a list \<Rightarrow> int \<Rightarrow> error + 'a" where
  "getitem xs i =
     (if 0 \<le> i \<and> i < int (length xs) then Inr (xs ! nat i)
      else if i < 0 \<and> - i \<le> int (length xs) then Inr (xs ! nat (int (length xs) + i))
      else Inl IndexError)"

text \<open>Sequencing of fallible steps: the first exception ends the computation.\<close>

definition and_then :: "error + 'a \<Rightarrow> ('a \<Rightarrow> error + 'b) \<Rightarrow> error + 'b" where
  "and_then m f = (case m of Inl e \<Rightarrow> Inl e | Inr x \<Rightarrow> f x)"

section \<open>Arrays\<close>

text \<open>
  A floating-point sample is not-a-number, an infinity or a finite value; the finite
  values are read as reals. An array is numpy's: a shape, an element type and the
  elements in row-major order. The model covers the two float types the pipeline
  produces.
\<close>

datatype sample = NaN | PosInf | NegInf | Fin real

datatype dtype = Float32 | Float64

record ndarray =
  shape :: "nat list"
  dtype :: dtype
  elems :: "sample list"

definition wf_array :: "ndarray \<Rightarrow> bool" where
  "wf_array a = (length (elems a) = prod_list (shape a))"

text \<open>Row-major addressing: the position of a multi-index in the element list.\<close>

fun offset :: "nat list \<Rightarrow> nat list \<Rightarrow> nat" where
  "offset (n # sh) (i # idx) = i * prod_list sh + offset sh idx"
| "offset _ _ = 0"

definition in_range :: "nat list \<Rightarrow> nat list \<Rightarrow> bool" where
  "in_range sh idx = list_all2 (\<lambda>i n. i < n) idx sh"

definition item :: "ndarray \<Rightarrow> nat list \<Rightarrow> sample" where
  "item a idx = elems a ! offset (shape a) idx"

subsection \<open>\<^verbatim>\<open>np.pad(a, pad_width, 'constant', constant_values=c)\<close>\<close>

fun padded_shape :: "nat list \<Rightarrow> (nat \<times> nat) list \<Rightarrow> nat list" where
  "padded_shape (n # sh) ((lo, hi) # ps) = (lo + n + hi) # padded_shape sh ps"
| "padded_shape _ _ = []"

fun pad_elems :: "nat list \<Rightarrow> (nat \<times> nat) list \<Rightarrow> sample \<Rightarrow> sample list \<Rightarrow> sample list" where
  "pad_elems (n # sh) ((lo, hi) # ps) c xs =
     (let k = prod_list sh; k' = prod_list (padded_shape sh ps)
      in replicate (lo * k') c
         @ concat (map (\<lambda>i. pad_elems sh ps c (take k (drop (i * k) xs))) [0..<n])
         @ replicate (hi * k') c)"
| "pad_elems _ _ c xs = xs"

text \<open>
  numpy wants one (before, after) pair for every axis and refuses a negative width.
\<close>

definition np_pad :: "ndarray \<Rightarrow> (int \<times> int) list \<Rightarrow> sample \<Rightarrow> error + ndarray" where
  "np_pad a pad_width c =
     (if list_ex (\<lambda>(lo, hi). lo < 0 \<or> hi < 0) pad_width then Inl ValueError
      else if length pad_width \<noteq> length (shape a) then Inl ValueError
      else let pw = map (\<lambda>(lo, hi). (nat lo, nat hi)) pad_width
           in Inr \<lparr>shape = padded_shape (shape a) pw, dtype = dtype a,
                   elems = pad_elems (shape a) pw c (elems a)\<rparr>)"

subsection \<open>Basic slicing \<^verbatim>\<open>a[lo0:hi0, lo1:hi1, ...]\<close>\<close>

text \<open>
  The values a slice bound can hold in \<^verbatim>\<open>UnpaddingEditor.call\<close>: \<^verbatim>\<open>None\<close>, an
  integer, or a tuple.
\<close>

datatype pyval = PNone | PInt int | PTuple "pyval list"

fun subscript :: "pyval \<Rightarrow> int \<Rightarrow> error + pyval" where
  "subscript (PTuple xs) i = getitem xs i"
| "subscript _ i = Inl TypeError"

text \<open>A slice bound on an axis of length \<open>n\<close>, clipped as Python clips it.\<close>

fun slice_bound :: "nat \<Rightarrow> nat \<Rightarrow> pyval \<Rightarrow> error + nat" where
  "slice_bound n dflt PNone = Inr dflt"
| "slice_bound n dflt (PInt i) =
     Inr (nat (max 0 (min (int n) (if i < 0 then int n + i else i))))"
| "slice_bound n dflt (PTuple xs) = Inl TypeError"

fun slice_elems :: "nat list \<Rightarrow> (nat \<times> nat) list \<Rightarrow> sample list \<Rightarrow> sample list" where
  "slice_elems (n # sh) ((lo, hi) # rs) xs =
     (let k = prod_list sh
      in concat (map (\<lambda>i. slice_elems sh rs (take k (drop (i * k) xs))) [lo..<hi]))"
| "slice_elems _ _ xs = xs"

fun sliced_shape :: "nat list \<Rightarrow> (nat \<times> nat) list \<Rightarrow> nat list" where
  "sliced_shape (n # sh) ((lo, hi) # rs) = (hi - lo) # sliced_shape sh rs"
| "sliced_shape sh _ = sh"

fun slice_bounds :: "nat list \<Rightarrow> (pyval \<times> pyval) list \<Rightarrow> error + (nat \<times> nat) list" where
  "slice_bounds (n # sh) ((lo, hi) # rs) =
     and_then (slice_bound n 0 lo) (\<lambda>l.
     and_then (slice_bound n n hi) (\<lambda>h.
     and_then (slice_bounds sh rs) (\<lambda>bs. Inr ((l, h) # bs))))"
| "slice_bounds [] (r # rs) = Inl IndexError"
| "slice_bounds sh [] = Inr []"

definition np_slice :: "ndarray \<Rightarrow> (pyval \<times> pyval) list \<Rightarrow> error + ndarray" where
  "np_slice a rs =
     (case slice_bounds (shape a) rs of
        Inl e \<Rightarrow> Inl e
      | Inr bs \<Rightarrow> Inr \<lparr>shape = sliced_shape (shape a) bs, dtype = dtype a,
                       elems = slice_elems (shape a) bs (elems a)\<rparr>)"

section \<open>GeometryOps\<close>

text \<open>
  \<^verbatim>\<open>PaddingEditor.call\<close>: the pad widths of the two trailing axes are the floor and
  the ceiling of half the difference to the target; a three-dimensional array gets
  \<open>(0, 0)\<close> for its leading axis. \<open>s[-2]\<close> raises on an array with fewer than two
  axes.
\<close>

definition PaddingEditor_call :: "int \<times> int \<Rightarrow> ndarray \<Rightarrow> error + ndarray" where
  "PaddingEditor_call target_shape data =
     (let s = shape data; p = target_shape in
      and_then (getitem s (- 2)) (\<lambda>s2.
      and_then (getitem s (- 1)) (\<lambda>s1.
      let x_pad = real_of_int (fst p - int s2) / 2;
          y_pad = real_of_int (snd p - int s1) / 2;
          pad = [(\<lfloor>x_pad\<rfloor>, \<lceil>x_pad\<rceil>), (\<lfloor>y_pad\<rfloor>, \<lceil>y_pad\<rceil>)];
          pad = (if length s = 3 then (0, 0) # pad else pad)
      in np_pad data pad NaN)))"

text \<open>
  \<^verbatim>\<open>UnpaddingEditor.call\<close>: the list \<open>unpad\<close> holds the two bounds of the last axis
  as its first two entries and the pair of bounds of the other axis as its third;
  the slice expression then subscripts \<open>unpad[0]\<close> and \<open>unpad[1]\<close>.
\<close>

definition none_if_zero :: "int \<Rightarrow> pyval" where
  "none_if_zero i = (if i = 0 then PNone else PInt i)"

definition UnpaddingEditor_call :: "int \<times> int \<Rightarrow> ndarray \<Rightarrow> error + ndarray" where
  "UnpaddingEditor_call target_shape data =
     (let s = shape data; p = target_shape in
      and_then (getitem s (- 2)) (\<lambda>s2.
      and_then (getitem s (- 1)) (\<lambda>s1.
      let x_unpad = real_of_int (int s2 - fst p) / 2;
          y_unpad = real_of_int (int s1 - snd p) / 2;
          unpad = [none_if_zero \<lfloor>y_unpad\<rfloor>,
                   none_if_zero \<lceil>y_unpad\<rceil>,
                   PTuple [none_if_zero \<lfloor>x_unpad\<rfloor>, none_if_zero \<lceil>x_unpad\<rceil>]]
      in
      and_then (subscript (unpad ! 0) 0) (\<lambda>a.
      and_then (subscript (unpad ! 0) 1) (\<lambda>b.
      and_then (subscript (unpad ! 1) 0) (\<lambda>c.
      and_then (subscript (unpad ! 1) 1) (\<lambda>d.
      np_slice data [(PNone, PNone), (a, b), (c, d)])))))))"

section \<open>The Editor contract\<close>

text \<open>
  The keyword arguments \<^verbatim>\<open>**kwargs\<close> are a dictionary from names to values. A call
  \<^verbatim>\<open>f(data, **kwargs)\<close> builds a new dictionary for the callee, so the callee gets the
  entries and never the caller's object: the model passes the map itself. Such a call
  raises \<^verbatim>\<open>TypeError\<close> when the dictionary holds a key that is also the name of a
  positional parameter of the callee, here \<open>self\<close> or \<open>data\<close>.

  \<^verbatim>\<open>call\<close> returns either a plain value or a pair of a value and a dictionary of
  updates; \<^verbatim>\<open>convert\<close> tells the two apart with \<^verbatim>\<open>isinstance(result, tuple)\<close>.
\<close>

type_synonym 'v kwargs = "string \<Rightarrow> 'v option"

datatype ('b, 'v) result = Plain 'b | WithKwargs 'b "'v kwargs"

type_synonym ('a, 'b, 'v) editor = "'a \<Rightarrow> 'v kwargs \<Rightarrow> error + ('b, 'v) result"

definition kwargs_clash :: "'v kwargs \<Rightarrow> bool" where
  "kwargs_clash kwargs = (kwargs ''self'' \<noteq> None \<or> kwargs ''data'' \<noteq> None)"

definition convert :: "('a, 'b, 'v) editor \<Rightarrow> 'a \<Rightarrow> 'v kwargs \<Rightarrow> error + 'b \<times> 'v kwargs" where
  "convert call data kwargs =
     (if kwargs_clash kwargs then Inl TypeError
      else case call data kwargs of
             Inl e \<Rightarrow> Inl e
           | Inr (WithKwargs d add_kwargs) \<Rightarrow> Inr (d, kwargs ++ add_kwargs)
           | Inr (Plain d) \<Rightarrow> Inr (d, kwargs))"

section \<open>Sentinel replacement and normalisation\<close>

text \<open>
  \<^verbatim>\<open>np.nan_to_num(data, nan=v)\<close> with numpy's defaults for the other arguments:
  a NaN becomes \<open>v\<close>, an infinity becomes the largest finite value of the array's
  element type with the sign of the infinity, a finite sample stays.
\<close>

definition finfo_max :: "dtype \<Rightarrow> real" where
  "finfo_max t = (case t of Float32 \<Rightarrow> (2 - 1 / 2 ^ 23) * 2 ^ 127
                          | Float64 \<Rightarrow> (2 - 1 / 2 ^ 52) * 2 ^ 1023)"

fun nan_to_num_sample :: "dtype \<Rightarrow> sample \<Rightarrow> sample \<Rightarrow> sample" where
  "nan_to_num_sample t v NaN = v"
| "nan_to_num_sample t v PosInf = Fin (finfo_max t)"
| "nan_to_num_sample t v NegInf = Fin (- finfo_max t)"
| "nan_to_num_sample t v (Fin x) = Fin x"

definition np_nan_to_num :: "ndarray \<Rightarrow> sample \<Rightarrow> ndarray" where
  "np_nan_to_num a v = a\<lparr>elems := map (nan_to_num_sample (dtype a) v) (elems a)\<rparr>"

text \<open>\<^verbatim>\<open>NanEditor(nan).call\<close>; the constructor's default for \<open>nan\<close> is \<open>0\<close>.\<close>

definition NanEditor_call :: "sample \<Rightarrow> ndarray \<Rightarrow> ndarray" where
  "NanEditor_call nan data = np_nan_to_num data nan"

definition NanEditor_default_nan :: sample where
  "NanEditor_default_nan = Fin 0"

text \<open>
  As a unit of a pipeline, \<^verbatim>\<open>NanEditor.call\<close> ignores its keyword arguments and
  returns the array alone, not a pair.
\<close>

definition NanEditor :: "sample \<Rightarrow> (ndarray, ndarray, 'v) editor" where
  "NanEditor nan data kwargs = Inr (Plain (NanEditor_call nan data))"

text \<open>
  \<^verbatim>\<open>NormalizeEditor(norm).call\<close>: \<open>stretch\<close> stands for the \<open>norm\<close> the caller supplies, the
  editor computes \<open>norm(data).data * 2 - 1\<close> sample by sample. NaN and the infinities
  propagate through the arithmetic.
\<close>

fun times2_minus1 :: "sample \<Rightarrow> sample" where
  "times2_minus1 (Fin x) = Fin (x * 2 - 1)"
| "times2_minus1 PosInf = PosInf"
| "times2_minus1 NegInf = NegInf"
| "times2_minus1 NaN = NaN"

definition NormalizeEditor_call :: "(ndarray \<Rightarrow> ndarray) \<Rightarrow> ndarray \<Rightarrow> ndarray" where
  "NormalizeEditor_call stretch data =
     (let stretched = stretch data in stretched\<lparr>elems := map times2_minus1 (elems stretched)\<rparr>)"

section \<open>DistributeEditor\<close>

text \<open>
  The loop of \<^verbatim>\<open>convertData\<close>: every editor of the list is run through \<^verbatim>\<open>convert\<close>
  on the data and the keyword arguments the editor before it returned.
\<close>

fun run_editors :: "('d, 'd, 'v) editor list \<Rightarrow> 'd \<Rightarrow> 'v kwargs \<Rightarrow> error + 'd \<times> 'v kwargs" where
  "run_editors [] data kwargs = Inr (data, kwargs)"
| "run_editors (editor # editors) data kwargs =
     (case convert editor data kwargs of
        Inl e \<Rightarrow> Inl e
      | Inr (data', kwargs') \<Rightarrow> run_editors editors data' kwargs')"

definition DistributeEditor_convertData ::
  "('d, 'd, 'v) editor list \<Rightarrow> 'd \<Rightarrow> 'v kwargs \<Rightarrow> error + 'd" where
  "DistributeEditor_convertData editors data kwargs =
     (if kwargs_clash kwargs then Inl TypeError
      else case run_editors editors data kwargs of
             Inl e \<Rightarrow> Inl e
           | Inr (d, kw) \<Rightarrow> Inr d)"

text \<open>
  A value that travels through a sub-pipeline is an array or some other object (a
  file name, a map of the sun); numpy takes the latter for a scalar.
\<close>

datatype 'x pyobj = Arr ndarray | Obj 'x

text \<open>A list comprehension: the elements in order, the first exception ends it.\<close>

fun collect :: "(error + 'a) list \<Rightarrow> error + 'a list" where
  "collect [] = Inr []"
| "collect (r # rs) = and_then r (\<lambda>x. and_then (collect rs) (\<lambda>xs. Inr (x # xs)))"

text \<open>
  \<^verbatim>\<open>np.concatenate(arrays, 0)\<close>: at least one array, none of dimension zero, all of
  the same shape behind the leading axis; the result has the wider element type.
\<close>

fun the_arrays :: "'x pyobj list \<Rightarrow> ndarray list option" where
  "the_arrays [] = Some []"
| "the_arrays (Arr a # rs) = map_option ((#) a) (the_arrays rs)"
| "the_arrays (Obj x # rs) = None"

definition result_type :: "ndarray list \<Rightarrow> dtype" where
  "result_type arrays = (if list_ex (\<lambda>a. dtype a = Float64) arrays then Float64 else Float32)"

definition np_concatenate :: "'x pyobj list \<Rightarrow> error + ndarray" where
  "np_concatenate rs =
     (case the_arrays rs of
        None \<Rightarrow> Inl ValueError
      | Some arrays \<Rightarrow>
          if arrays = [] then Inl ValueError
          else if list_ex (\<lambda>a. shape a = []) arrays then Inl ValueError
          else if list_ex (\<lambda>a. tl (shape a) \<noteq> tl (shape (hd arrays))) arrays then Inl ValueError
          else Inr \<lparr>shape = sum_list (map (\<lambda>a. hd (shape a)) arrays) # tl (shape (hd arrays)),
                    dtype = result_type arrays,
                    elems = concat (map elems arrays)\<rparr>)"

definition DistributeEditor_call ::
  "('x pyobj, 'x pyobj, 'v) editor list \<Rightarrow> ('x pyobj list, 'x pyobj, 'v) editor" where
  "DistributeEditor_call editors data kwargs =
     (if kwargs_clash kwargs then Inl TypeError
      else and_then (collect (map (\<lambda>d. DistributeEditor_convertData editors d kwargs) data))
             (\<lambda>rs. and_then (np_concatenate rs) (\<lambda>out. Inr (Plain (Arr out)))))"

subsection \<open>What the units of a run observe\<close>

text \<open>
  The same loop as \<open>run_editors\<close>, recording for every unit whose \<^verbatim>\<open>call\<close> is
  reached the keyword arguments it is called with and the updates it returns (none
  when it returns a plain value or raises).
\<close>

fun observed :: "('d, 'd, 'v) editor list \<Rightarrow> 'd \<Rightarrow> 'v kwargs \<Rightarrow> ('v kwargs \<times> 'v kwargs) list" where
  "observed [] data kwargs = []"
| "observed (editor # editors) data kwargs =
     (if kwargs_clash kwargs then []
      else case editor data kwargs of
             Inl e \<Rightarrow> [(kwargs, Map.empty)]
           | Inr (Plain d) \<Rightarrow> (kwargs, Map.empty) # observed editors d kwargs
           | Inr (WithKwargs d add_kwargs) \<Rightarrow>
               (kwargs, add_kwargs) # observed editors d (kwargs ++ add_kwargs))"

text \<open>
  The updates a unit returns from a call: the second component when it returns a
  pair, none when it returns a plain value or raises.
\<close>

definition add_kwargs_of :: "('a, 'b, 'v) editor \<Rightarrow> 'a \<Rightarrow> 'v kwargs \<Rightarrow> 'v kwargs" where
  "add_kwargs_of call data kwargs =
     (case call data kwargs of Inr (WithKwargs d add_kwargs) \<Rightarrow> add_kwargs | _ \<Rightarrow> Map.empty)"


subsection \<open>Two units that write and read a key\<close>

text \<open>
  Unit A returns its data with the update \<^verbatim>\<open>{"k": 1}\<close>; unit B returns what it
  finds under \<^verbatim>\<open>"k"\<close> in its keyword arguments (\<^verbatim>\<open>kwargs.get("k")\<close>).
\<close>

definition writes_k :: "(int option, int option, int) editor" where
  "writes_k data kwargs = Inr (WithKwargs data [''k'' \<mapsto> 1])"

definition reads_k :: "(int option, int option, int) editor" where
  "reads_k data kwargs = Inr (Plain (kwargs ''k''))"

subsection \<open>Two units that tell one run from another\<close>

text \<open>
  One unit returns its data with the update \<^verbatim>\<open>{"seen": data}\<close>; the other returns
  what it finds under \<^verbatim>\<open>"seen"\<close> in its keyword arguments, and its own data when
  there is no such key (\<^verbatim>\<open>kwargs.get("seen", data)\<close>).
\<close>

definition remember_input :: "('x pyobj, 'x pyobj, 'x pyobj) editor" where
  "remember_input data kwargs = Inr (WithKwargs data [''seen'' \<mapsto> data])"

definition returns_seen :: "('x pyobj, 'x pyobj, 'x pyobj) editor" where
  "returns_seen data kwargs =
     (case kwargs ''seen'' of Some d \<Rightarrow> Inr (Plain d) | None \<Rightarrow> Inr (Plain data))"


section \<open>InstrumentFrameLoader\<close>

text \<open>
  A FITS header maps keywords to numbers or strings; astropy compares keywords without
  regard to case, and the model writes every keyword the way the source spells it. A
  container is the list of its header-data units, \<^verbatim>\<open>fits.open\<close> is a parameter of
  the model. \<^verbatim>\<open>Map(data, header)\<close> pairs an image with a header.
\<close>

datatype hval = HNum real | HStr string

type_synonym fits_header = "string \<Rightarrow> hval option"

record 'a hdu =
  header :: fits_header
  hdu_data :: 'a

record 'a GenericMap =
  map_data :: 'a
  meta :: fits_header

definition sunpy_Map :: "'a \<Rightarrow> fits_header \<Rightarrow> 'a GenericMap" where
  "sunpy_Map d h = \<lparr>map_data = d, meta = h\<rparr>"

definition invalid_file :: "string \<Rightarrow> string" where
  "invalid_file file = ''Invalid GREGOR file '' @ file"

text \<open>The slice \<^verbatim>\<open>hdul[index::2]\<close>.\<close>

fun every_second :: "'a list \<Rightarrow> 'a list" where
  "every_second (x # y # xs) = x # every_second xs"
| "every_second xs = xs"

definition slice_step2 :: "nat \<Rightarrow> 'a list \<Rightarrow> 'a list" where
  "slice_step2 index xs = every_second (drop index xs)"

text \<open>
  \<^verbatim>\<open>sorted(hdus, key=lambda hdu: hdu.header['TIMEOFFS'])\<close>: the keys are computed
  first, a missing keyword raises \<^verbatim>\<open>KeyError\<close>; Python's sort is stable and
  ascending, and it cannot compare a number with a string.
\<close>

definition num_key :: "'a hdu \<Rightarrow> real" where
  "num_key h = (case header h ''TIMEOFFS'' of Some (HNum t) \<Rightarrow> t | _ \<Rightarrow> 0)"

definition str_key :: "'a hdu \<Rightarrow> string" where
  "str_key h = (case header h ''TIMEOFFS'' of Some (HStr t) \<Rightarrow> t | _ \<Rightarrow> [])"

definition is_num :: "hval option \<Rightarrow> bool" where
  "is_num v = (case v of Some (HNum t) \<Rightarrow> True | _ \<Rightarrow> False)"

definition is_str :: "hval option \<Rightarrow> bool" where
  "is_str v = (case v of Some (HStr t) \<Rightarrow> True | _ \<Rightarrow> False)"

definition sorted_by_TIMEOFFS :: "'a hdu list \<Rightarrow> error + 'a hdu list" where
  "sorted_by_TIMEOFFS hdus =
     (if list_ex (\<lambda>h. header h ''TIMEOFFS'' = None) hdus then Inl (KeyError ''TIMEOFFS'')
      else if list_all (\<lambda>h. is_num (header h ''TIMEOFFS'')) hdus then Inr (sort_key num_key hdus)
      else if list_all (\<lambda>h. is_str (header h ''TIMEOFFS'')) hdus then Inr (sort_key str_key hdus)
      else Inl TypeError)"

text \<open>
  The channel index: the first unit's wavelength, then the second unit's; the
  \<^verbatim>\<open>assert\<close> comes first.
\<close>

definition channel_index :: "real \<Rightarrow> string \<Rightarrow> 'a hdu list \<Rightarrow> error + nat" where
  "channel_index wavelength file hdul =
     and_then (getitem hdul 0) (\<lambda>hdu0.
       if header hdu0 ''WAVELNTH'' = None then Inl (AssertionError (invalid_file file))
       else if header hdu0 ''WAVELNTH'' = Some (HNum wavelength) then Inr 0
       else and_then (getitem hdul 1) (\<lambda>hdu1.
              case header hdu1 ''WAVELNTH'' of
                None \<Rightarrow> Inl (KeyError ''WAVELNTH'')
              | Some w \<Rightarrow> if w = HNum wavelength then Inr 1
                          else Inl (Exception (invalid_file file))))"

text \<open>
  The assignments to \<open>primary_header\<close> change the header of the first unit in place;
  the emitted maps all carry that header.
\<close>

definition set_primary_header :: "fits_header \<Rightarrow> 'a hdu list \<Rightarrow> 'a hdu list" where
  "set_primary_header h hdul = (case hdul of [] \<Rightarrow> [] | hdu0 # rest \<Rightarrow> hdu0\<lparr>header := h\<rparr> # rest)"

definition LoadGregorGBandEditor_call ::
  "(string \<Rightarrow> error + 'a hdu list) \<Rightarrow> string \<Rightarrow> error + ('a GenericMap list, string) result" where
  "LoadGregorGBandEditor_call fits_open file =
     and_then (fits_open file) (\<lambda>hdul.
     and_then (channel_index 430.7 file hdul) (\<lambda>index.
     and_then (getitem hdul 0) (\<lambda>hdu0.
       let primary_header = (header hdu0)
             (''cunit1'' \<mapsto> HStr ''arcsec'', ''cunit2'' \<mapsto> HStr ''arcsec'',
              ''cdelt1'' \<mapsto> HNum (0.0253 / 2560), ''cdelt2'' \<mapsto> HNum (0.0253 / 2160));
           g_band = slice_step2 index (set_primary_header primary_header hdul)
       in and_then (sorted_by_TIMEOFFS g_band) (\<lambda>g_band.
            Inr (WithKwargs (map (\<lambda>hdu. sunpy_Map (hdu_data hdu) primary_header) g_band)
                            [''path'' \<mapsto> file])))))"

definition LoadGregorContinuumEditor_call ::
  "(string \<Rightarrow> error + 'a hdu list) \<Rightarrow> string \<Rightarrow> error + ('a GenericMap list, string) result" where
  "LoadGregorContinuumEditor_call fits_open file =
     and_then (fits_open file) (\<lambda>hdul.
     and_then (channel_index 450.55 file hdul) (\<lambda>index.
     and_then (getitem hdul 0) (\<lambda>hdu0.
       let primary_header = (header hdu0)
             (''cunit'' \<mapsto> HStr ''arcsec'', ''cunit2'' \<mapsto> HStr ''arcsec'',
              ''cdelt1'' \<mapsto> HNum (0.0253 / 2560), ''cdelt2'' \<mapsto> HNum (0.0253 / 2160));
           continuum = slice_step2 index (set_primary_header primary_header hdul)
       in and_then (sorted_by_TIMEOFFS continuum) (\<lambda>continuum.
            Inr (WithKwargs (map (\<lambda>hdu. sunpy_Map (hdu_data hdu) primary_header) continuum)
                            [''path'' \<mapsto> file])))))"

text \<open>
  Two records that the sort and the emitted maps cannot tell apart: the same time
  offset and the same image.
\<close>

definition same_frame :: "'a hdu \<Rightarrow> 'a hdu \<Rightarrow> bool" where
  "same_frame a b = (header a ''TIMEOFFS'' = header b ''TIMEOFFS'' \<and> hdu_data a = hdu_data b)"

section \<open>Properties of GeometryOps\<close>

subsection \<open>Pad widths\<close>

lemma half_floor: "\<lfloor>real_of_int d / 2\<rfloor> = d div 2"
  using floor_divide_of_int_eq[of d 2, where ?'a = real] by simp

lemma half_ceiling: "\<lceil>real_of_int d / 2\<rceil> = - ((- d) div 2)"
proof -
  have "\<lceil>real_of_int d / 2\<rceil> = - \<lfloor>real_of_int (- d) / 2\<rfloor>"
    by (simp add: ceiling_def)
  then show ?thesis by (simp only: half_floor)
qed

lemma PaddingEditor_call_unfold:
  "PaddingEditor_call (H, W) data =
     and_then (getitem (shape data) (- 2)) (\<lambda>s2.
     and_then (getitem (shape data) (- 1)) (\<lambda>s1.
       np_pad data
         ((if length (shape data) = 3 then [(0, 0)] else [])
          @ [((H - int s2) div 2, - ((int s2 - H) div 2)),
             ((W - int s1) div 2, - ((int s1 - W) div 2))]) NaN))"
  unfolding PaddingEditor_call_def Let_def half_floor half_ceiling fst_conv snd_conv minus_diff_eq
  by simp

subsection \<open>Unpadding\<close>

text \<open>
  \<open>unpad[0]\<close> is \<^verbatim>\<open>None\<close> or an integer, never a pair, so the subscript
  \<open>unpad[0][0]\<close> in the slice expression raises for every array that has the two
  trailing axes; an array without them fails earlier, at \<open>s[-2]\<close>.
\<close>

lemma UnpaddingEditor_call_never_returns: "UnpaddingEditor_call p data \<noteq> Inr out"
  by (simp add: UnpaddingEditor_call_def Let_def and_then_def none_if_zero_def split: sum.splits)

lemma UnpaddingEditor_call_TypeError:
  "2 \<le> length (shape data) \<Longrightarrow> UnpaddingEditor_call p data = Inl TypeError"
  by (auto simp add: UnpaddingEditor_call_def Let_def and_then_def none_if_zero_def getitem_def)

text \<open>
  Claim C1 (round trip): unpadding with the original shape what was padded to a target
  shape gives the array back. The code does not do that: for the \<open>1 \<times> 2 \<times> 2\<close>
  array below, padded to \<open>(3, 3)\<close>, \<^verbatim>\<open>UnpaddingEditor((2, 2)).call\<close> raises
  \<^verbatim>\<open>TypeError\<close> instead of returning the array.
\<close>

theorem UnpaddingEditor_call_fails_on_padded_array:
  "PaddingEditor_call (3, 3)
     \<lparr>shape = [1, 2, 2], dtype = Float64, elems = [Fin 1, Fin 2, Fin 3, Fin 4]\<rparr>
     = Inr \<lparr>shape = [1, 3, 3], dtype = Float64,
            elems = [Fin 1, Fin 2, NaN, Fin 3, Fin 4, NaN, NaN, NaN, NaN]\<rparr>
   \<and> UnpaddingEditor_call (2, 2)
       \<lparr>shape = [1, 3, 3], dtype = Float64,
        elems = [Fin 1, Fin 2, NaN, Fin 3, Fin 4, NaN, NaN, NaN, NaN]\<rparr> = Inl TypeError"
  by (simp add: PaddingEditor_call_unfold UnpaddingEditor_call_def Let_def and_then_def getitem_def
        np_pad_def none_if_zero_def eval_nat_numeral)

section \<open>Properties of NanEditor\<close>

text \<open>
  Claim C10 as stated: the result has the shape of the input, every NaN is replaced by
  the configured value and every entry that is not NaN is unchanged. The last part
  fails on an infinity: \<^verbatim>\<open>np.nan_to_num\<close> replaces it by the largest finite number
  of the element type.
\<close>

theorem NanEditor_call_changes_infinity:
  "NanEditor_call NanEditor_default_nan \<lparr>shape = [1], dtype = Float64, elems = [PosInf]\<rparr>
     = \<lparr>shape = [1], dtype = Float64, elems = [Fin (finfo_max Float64)]\<rparr>
   \<and> PosInf \<noteq> NaN \<and> Fin (finfo_max Float64) \<noteq> PosInf"
  by (simp add: NanEditor_call_def np_nan_to_num_def)

text \<open>
  Claim C10, amended: the result has the shape of the input; every NaN is replaced by
  the configured value, whose default is \<open>0\<close>; every finite entry is unchanged; an
  infinite entry becomes the largest finite value of the element type with the sign of
  the infinity. The call never raises, and run through \<^verbatim>\<open>convert\<close> it leaves the
  keyword arguments as they were.
\<close>

theorem NanEditor_call_replaces_NaN_keeps_finite:
  "shape (NanEditor_call nan data) = shape data
   \<and> length (elems (NanEditor_call nan data)) = length (elems data)
   \<and> (\<forall>i < length (elems data).
        (elems data ! i = NaN \<longrightarrow> elems (NanEditor_call nan data) ! i = nan)
      \<and> (\<forall>x. elems data ! i = Fin x \<longrightarrow> elems (NanEditor_call nan data) ! i = Fin x)
      \<and> (elems data ! i = PosInf \<longrightarrow>
           elems (NanEditor_call nan data) ! i = Fin (finfo_max (dtype data)))
      \<and> (elems data ! i = NegInf \<longrightarrow>
           elems (NanEditor_call nan data) ! i = Fin (- finfo_max (dtype data))))
   \<and> NanEditor_default_nan = Fin 0
   \<and> NanEditor nan data kwargs = Inr (Plain (NanEditor_call nan data))
   \<and> (\<not> kwargs_clash kwargs \<longrightarrow>
        convert (NanEditor nan) data kwargs = Inr (NanEditor_call nan data, kwargs))"
  by (simp add: NanEditor_call_def np_nan_to_num_def convert_def NanEditor_def
        NanEditor_default_nan_def)

theorem NanEditor_call_replaces_NaN_keeps_finite_witness:
  "NanEditor_call NanEditor_default_nan
       \<lparr>shape = [4], dtype = Float32, elems = [NaN, Fin 2, PosInf, NegInf]\<rparr>
     = \<lparr>shape = [4], dtype = Float32,
        elems = [Fin 0, Fin 2, Fin (finfo_max Float32), Fin (- finfo_max Float32)]\<rparr>
   \<and> convert (NanEditor NanEditor_default_nan)
        \<lparr>shape = [1], dtype = Float32, elems = [NaN]\<rparr> [''path'' \<mapsto> ''a.fits'']
       = Inr (\<lparr>shape = [1], dtype = Float32, elems = [Fin 0]\<rparr>, [''path'' \<mapsto> ''a.fits''])"
proof -
  have nc: "\<not> kwargs_clash [''path'' \<mapsto> ''a.fits'']"
    by (simp add: kwargs_clash_def)
  have "convert (NanEditor NanEditor_default_nan)
        \<lparr>shape = [1], dtype = Float32, elems = [NaN]\<rparr> [''path'' \<mapsto> ''a.fits'']
       = Inr (NanEditor_call NanEditor_default_nan \<lparr>shape = [1], dtype = Float32, elems = [NaN]\<rparr>,
              [''path'' \<mapsto> ''a.fits''])"
    using NanEditor_call_replaces_NaN_keeps_finite
      [of NanEditor_default_nan "\<lparr>shape = [1], dtype = Float32, elems = [NaN]\<rparr>"
          "[''path'' \<mapsto> ''a.fits'']"] nc
    by blast
  then show ?thesis
    by (simp add: NanEditor_call_def np_nan_to_num_def NanEditor_default_nan_def)
qed

section \<open>Properties of NormalizeEditor\<close>

text \<open>
  Claim C9: where the stretch yields values in \<open>[0, 1]\<close>, the output of the
  Normalizer, \<open>stretch(input) * 2 - 1\<close>, lies in \<open>[-1, 1]\<close>; it is \<open>-1\<close> where the
  stretch is \<open>0\<close> and \<open>1\<close> where the stretch is \<open>1\<close>. (Doubling is exact in binary
  floating point and the subtraction of \<open>1\<close> rounds monotonically between the
  representable bounds, so the reals of the model lose nothing here.)
\<close>

theorem NormalizeEditor_call_range:
  assumes "\<forall>x \<in> set (elems (stretch data)). \<exists>v. x = Fin v \<and> 0 \<le> v \<and> v \<le> 1"
  shows "shape (NormalizeEditor_call stretch data) = shape (stretch data)
   \<and> length (elems (NormalizeEditor_call stretch data)) = length (elems (stretch data))
   \<and> (\<forall>i < length (elems (stretch data)).
        (\<exists>u. elems (NormalizeEditor_call stretch data) ! i = Fin u \<and> - 1 \<le> u \<and> u \<le> 1)
      \<and> (elems (stretch data) ! i = Fin 0 \<longrightarrow>
           elems (NormalizeEditor_call stretch data) ! i = Fin (- 1))
      \<and> (elems (stretch data) ! i = Fin 1 \<longrightarrow>
           elems (NormalizeEditor_call stretch data) ! i = Fin 1))"
proof -
  have "\<exists>u. times2_minus1 (elems (stretch data) ! i) = Fin u \<and> - 1 \<le> u \<and> u \<le> 1"
    if "i < length (elems (stretch data))" for i
  proof -
    from that assms obtain v where "elems (stretch data) ! i = Fin v" "0 \<le> v" "v \<le> 1"
      using nth_mem by blast
    then show ?thesis by simp
  qed
  then show ?thesis by (simp add: NormalizeEditor_call_def Let_def)
qed

theorem NormalizeEditor_call_range_witness:
  "elems (NormalizeEditor_call (\<lambda>a. a)
       \<lparr>shape = [3], dtype = Float32, elems = [Fin 0, Fin (1 / 2), Fin 1]\<rparr>)
     = [Fin (- 1), Fin 0, Fin 1]"
  using NormalizeEditor_call_range
    [of "\<lambda>a. a" "\<lparr>shape = [3], dtype = Float32, elems = [Fin 0, Fin (1 / 2), Fin 1]\<rparr>"]
  by (simp add: NormalizeEditor_call_def)

section \<open>Properties of the loaders\<close>

subsection \<open>The channel index\<close>



lemma channel_index_no_tag:
  "header hdu0 ''WAVELNTH'' = None \<Longrightarrow>
   channel_index wl file (hdu0 # rest) = Inl (AssertionError (invalid_file file))"
  by (simp add: channel_index_def and_then_def getitem_def)

lemma channel_index_neither:
  "header hdu0 ''WAVELNTH'' = Some w0 \<Longrightarrow> w0 \<noteq> HNum wl \<Longrightarrow>
   header hdu1 ''WAVELNTH'' = Some w1 \<Longrightarrow> w1 \<noteq> HNum wl \<Longrightarrow>
   channel_index wl file (hdu0 # hdu1 # rest) = Inl (Exception (invalid_file file))"
  by (simp add: channel_index_def and_then_def getitem_def)

lemma channel_index_one_record:
  "header hdu0 ''WAVELNTH'' = Some w0 \<Longrightarrow> w0 \<noteq> HNum wl \<Longrightarrow>
   channel_index wl file [hdu0] = Inl IndexError"
  by (simp add: channel_index_def and_then_def getitem_def)

lemma channel_index_second_no_tag:
  "header hdu0 ''WAVELNTH'' = Some w0 \<Longrightarrow> w0 \<noteq> HNum wl \<Longrightarrow>
   header hdu1 ''WAVELNTH'' = None \<Longrightarrow>
   channel_index wl file (hdu0 # hdu1 # rest) = Inl (KeyError ''WAVELNTH'')"
  by (simp add: channel_index_def and_then_def getitem_def)


subsection \<open>Rejected containers\<close>

text \<open>
  Claim C5 as stated: whenever the first record carries a wavelength tag and neither
  the first nor the second record's tag equals the loader's wavelength, the loader
  raises the exception of line 109, which the specification calls
  \<open>UnsupportedInstrumentFile\<close>. That fails on a container with a single record:
  its tag \<open>999\<close> is present and is not \<open>430.7\<close>, there is no second record whose
  tag could match, and line 106 raises \<^verbatim>\<open>IndexError\<close> at \<open>hdul[1]\<close>. With a
  second record that has no tag, the same line raises \<^verbatim>\<open>KeyError\<close>.
\<close>

theorem LoadGregorGBandEditor_call_one_record_IndexError:
  "LoadGregorGBandEditor_call
      (\<lambda>f. Inr [\<lparr>header = [''WAVELNTH'' \<mapsto> HNum 999], hdu_data = ()\<rparr>]) ''a.fits''
     = Inl IndexError
   \<and> header \<lparr>header = [''WAVELNTH'' \<mapsto> HNum 999], hdu_data = ()\<rparr> ''WAVELNTH'' = Some (HNum 999)
   \<and> HNum 999 \<noteq> HNum 430.7
   \<and> LoadGregorGBandEditor_call
      (\<lambda>f. Inr [\<lparr>header = [''WAVELNTH'' \<mapsto> HNum 999], hdu_data = ()\<rparr>,
                 \<lparr>header = [''TIMEOFFS'' \<mapsto> HNum 1], hdu_data = ()\<rparr>]) ''a.fits''
     = Inl (KeyError ''WAVELNTH'')"
  by (simp add: LoadGregorGBandEditor_call_def and_then_def channel_index_def getitem_def)

text \<open>
  Claim C5, amended: a container whose first two records both carry a wavelength
  tag, neither equal to the loader's wavelength, is rejected with the exception of
  line 109 and no frame is emitted; a container whose first record has no wavelength
  tag is rejected by the \<^verbatim>\<open>assert\<close> of line 103. When the first record's tag does
  not match, a container without a second record ends in \<^verbatim>\<open>IndexError\<close> and one
  whose second record has no tag in \<^verbatim>\<open>KeyError\<close>. The source has no exception
  classes of its own: the rejection of line 109 is
  \<^verbatim>\<open>Exception('Invalid GREGOR file ...')\<close>, which the specification calls
  \<open>UnsupportedInstrumentFile\<close>, and the failed \<^verbatim>\<open>assert\<close> is an
  \<^verbatim>\<open>AssertionError\<close> with the same message, which it calls
  \<open>MissingMetadataError\<close>.
\<close>

theorem LoadGregorGBandEditor_call_rejects:
  assumes "fits_open file = Inr (hdu0 # rest)"
  shows "(header hdu0 ''WAVELNTH'' = None \<longrightarrow>
            LoadGregorGBandEditor_call fits_open file = Inl (AssertionError (invalid_file file)))
       \<and> (header hdu0 ''WAVELNTH'' = Some w0 \<and> w0 \<noteq> HNum 430.7 \<and> rest = hdu1 # rest'
            \<and> header hdu1 ''WAVELNTH'' = Some w1 \<and> w1 \<noteq> HNum 430.7 \<longrightarrow>
            LoadGregorGBandEditor_call fits_open file = Inl (Exception (invalid_file file)))
       \<and> (header hdu0 ''WAVELNTH'' = Some w0 \<and> w0 \<noteq> HNum 430.7 \<and> rest = [] \<longrightarrow>
            LoadGregorGBandEditor_call fits_open file = Inl IndexError)
       \<and> (header hdu0 ''WAVELNTH'' = Some w0 \<and> w0 \<noteq> HNum 430.7 \<and> rest = hdu1 # rest'
            \<and> header hdu1 ''WAVELNTH'' = None \<longrightarrow>
            LoadGregorGBandEditor_call fits_open file = Inl (KeyError ''WAVELNTH''))"
  using assms
  by (auto simp add: LoadGregorGBandEditor_call_def and_then_def channel_index_no_tag
        channel_index_neither channel_index_one_record channel_index_second_no_tag)

theorem LoadGregorGBandEditor_call_rejects_witness:
  "LoadGregorGBandEditor_call
      (\<lambda>f. Inr [\<lparr>header = [''TIMEOFFS'' \<mapsto> HNum 1], hdu_data = ()\<rparr>]) ''a.fits''
     = Inl (AssertionError ''Invalid GREGOR file a.fits'')
   \<and> LoadGregorGBandEditor_call
      (\<lambda>f. Inr [\<lparr>header = [''WAVELNTH'' \<mapsto> HNum 999], hdu_data = ()\<rparr>,
                 \<lparr>header = [''WAVELNTH'' \<mapsto> HNum 450.55], hdu_data = ()\<rparr>]) ''a.fits''
     = Inl (Exception ''Invalid GREGOR file a.fits'')
   \<and> LoadGregorGBandEditor_call
      (\<lambda>f. Inr [\<lparr>header = [''WAVELNTH'' \<mapsto> HNum 450.55], hdu_data = ()\<rparr>]) ''a.fits''
     = Inl IndexError
   \<and> LoadGregorGBandEditor_call
      (\<lambda>f. Inr [\<lparr>header = [''WAVELNTH'' \<mapsto> HNum 450.55], hdu_data = ()\<rparr>,
                 \<lparr>header = [''TIMEOFFS'' \<mapsto> HNum 2], hdu_data = ()\<rparr>]) ''a.fits''
     = Inl (KeyError ''WAVELNTH'')"
proof -
  have a: "LoadGregorGBandEditor_call
      (\<lambda>f. Inr [\<lparr>header = [''TIMEOFFS'' \<mapsto> HNum 1], hdu_data = ()\<rparr>]) ''a.fits''
     = Inl (AssertionError (invalid_file ''a.fits''))"
    using LoadGregorGBandEditor_call_rejects
      [of "\<lambda>f. Inr [\<lparr>header = [''TIMEOFFS'' \<mapsto> HNum 1], hdu_data = ()\<rparr>]" "''a.fits''"
          "\<lparr>header = [''TIMEOFFS'' \<mapsto> HNum 1], hdu_data = ()\<rparr>" "[]"]
    by simp
  have b: "LoadGregorGBandEditor_call
      (\<lambda>f. Inr [\<lparr>header = [''WAVELNTH'' \<mapsto> HNum 999], hdu_data = ()\<rparr>,
                 \<lparr>header = [''WAVELNTH'' \<mapsto> HNum 450.55], hdu_data = ()\<rparr>]) ''a.fits''
     = Inl (Exception (invalid_file ''a.fits''))"
    using LoadGregorGBandEditor_call_rejects
      [of "\<lambda>f. Inr [\<lparr>header = [''WAVELNTH'' \<mapsto> HNum 999], hdu_data = ()\<rparr>,
                 \<lparr>header = [''WAVELNTH'' \<mapsto> HNum 450.55], hdu_data = ()\<rparr>]" "''a.fits''"
          "\<lparr>header = [''WAVELNTH'' \<mapsto> HNum 999], hdu_data = ()\<rparr>"
          "[\<lparr>header = [''WAVELNTH'' \<mapsto> HNum 450.55], hdu_data = ()\<rparr>]"
          "HNum 999" "\<lparr>header = [''WAVELNTH'' \<mapsto> HNum 450.55], hdu_data = ()\<rparr>" "[]"
          "HNum 450.55"]
    by simp
  have c: "LoadGregorGBandEditor_call
      (\<lambda>f. Inr [\<lparr>header = [''WAVELNTH'' \<mapsto> HNum 450.55], hdu_data = ()\<rparr>]) ''a.fits''
     = Inl IndexError"
    using LoadGregorGBandEditor_call_rejects
      [of "\<lambda>f. Inr [\<lparr>header = [''WAVELNTH'' \<mapsto> HNum 450.55], hdu_data = ()\<rparr>]" "''a.fits''"
          "\<lparr>header = [''WAVELNTH'' \<mapsto> HNum 450.55], hdu_data = ()\<rparr>" "[]"
          "HNum 450.55"]
    by simp
  have d: "LoadGregorGBandEditor_call
      (\<lambda>f. Inr [\<lparr>header = [''WAVELNTH'' \<mapsto> HNum 450.55], hdu_data = ()\<rparr>,
                 \<lparr>header = [''TIMEOFFS'' \<mapsto> HNum 2], hdu_data = ()\<rparr>]) ''a.fits''
     = Inl (KeyError ''WAVELNTH'')"
    using LoadGregorGBandEditor_call_rejects
      [of "\<lambda>f. Inr [\<lparr>header = [''WAVELNTH'' \<mapsto> HNum 450.55], hdu_data = ()\<rparr>,
                 \<lparr>header = [''TIMEOFFS'' \<mapsto> HNum 2], hdu_data = ()\<rparr>]" "''a.fits''"
          "\<lparr>header = [''WAVELNTH'' \<mapsto> HNum 450.55], hdu_data = ()\<rparr>"
          "[\<lparr>header = [''TIMEOFFS'' \<mapsto> HNum 2], hdu_data = ()\<rparr>]"
          "HNum 450.55" "\<lparr>header = [''TIMEOFFS'' \<mapsto> HNum 2], hdu_data = ()\<rparr>" "[]"]
    by simp
  from a b c d show ?thesis by (simp add: invalid_file_def)
qed

text \<open>The continuum loader rejects the same way, with its own wavelength.\<close>

lemma LoadGregorContinuumEditor_call_rejects:
  assumes "fits_open file = Inr (hdu0 # rest)"
  shows "(header hdu0 ''WAVELNTH'' = None \<longrightarrow>
            LoadGregorContinuumEditor_call fits_open file = Inl (AssertionError (invalid_file file)))
       \<and> (header hdu0 ''WAVELNTH'' = Some w0 \<and> w0 \<noteq> HNum 450.55 \<and> rest = hdu1 # rest'
            \<and> header hdu1 ''WAVELNTH'' = Some w1 \<and> w1 \<noteq> HNum 450.55 \<longrightarrow>
            LoadGregorContinuumEditor_call fits_open file = Inl (Exception (invalid_file file)))"
  using assms
  by (auto simp add: LoadGregorContinuumEditor_call_def and_then_def channel_index_no_tag
        channel_index_neither)

subsection \<open>The patched header\<close>

text \<open>
  Claim C3: both loaders set \<open>cunit1\<close> and \<open>cunit2\<close> to arcseconds and \<open>cdelt1\<close>,
  \<open>cdelt2\<close> to the plate scale before they emit frames. The continuum loader assigns
  \<open>primary_header['cunit']\<close> where the g-band loader assigns
  \<open>primary_header['cunit1']\<close>: on a container whose header says \<open>cunit1 = 'deg'\<close> the
  emitted frame of the continuum loader still says \<open>'deg'\<close>, that of the g-band
  loader says \<open>'arcsec'\<close>.
\<close>

theorem LoadGregorContinuumEditor_call_leaves_cunit1:
  "(case LoadGregorContinuumEditor_call
      (\<lambda>f. Inr [\<lparr>header = [''WAVELNTH'' \<mapsto> HNum 450.55, ''TIMEOFFS'' \<mapsto> HNum 0,
                             ''cunit1'' \<mapsto> HStr ''deg'', ''cunit2'' \<mapsto> HStr ''deg''],
                  hdu_data = ()\<rparr>]) ''c.fits'' of
      Inr (WithKwargs [m] kw) \<Rightarrow>
        meta m ''cunit1'' = Some (HStr ''deg'') \<and> meta m ''cunit2'' = Some (HStr ''arcsec'')
        \<and> meta m ''cunit'' = Some (HStr ''arcsec'')
    | _ \<Rightarrow> False)
   \<and> (case LoadGregorGBandEditor_call
      (\<lambda>f. Inr [\<lparr>header = [''WAVELNTH'' \<mapsto> HNum 430.7, ''TIMEOFFS'' \<mapsto> HNum 0,
                             ''cunit1'' \<mapsto> HStr ''deg'', ''cunit2'' \<mapsto> HStr ''deg''],
                  hdu_data = ()\<rparr>]) ''g.fits'' of
      Inr (WithKwargs [m] kw) \<Rightarrow>
        meta m ''cunit1'' = Some (HStr ''arcsec'') \<and> meta m ''cunit2'' = Some (HStr ''arcsec'')
    | _ \<Rightarrow> False)"
  by (simp add: LoadGregorContinuumEditor_call_def LoadGregorGBandEditor_call_def and_then_def
        channel_index_def getitem_def set_primary_header_def slice_step2_def sorted_by_TIMEOFFS_def
        is_num_def sunpy_Map_def Let_def)

section \<open>Properties of the pipeline\<close>

lemma observed_take: "observed (take p es) d kw = take p (observed es d kw)"
proof (induction es arbitrary: p d kw)
  case Nil
  then show ?case by simp
next
  case (Cons e es)
  show ?case
  proof (cases p)
    case 0
    then show ?thesis by simp
  next
    case (Suc q)
    then show ?thesis
      by (simp add: Cons.IH split: sum.splits result.splits)
  qed
qed

lemma observed_nth_fst:
  "p < length (observed es d kw) \<Longrightarrow>
   fst (observed es d kw ! p) = foldl (++) kw (map snd (take p (observed es d kw)))"
proof (induction es arbitrary: p d kw)
  case Nil
  then show ?case by simp
next
  case (Cons e es)
  show ?case
  proof (cases p)
    case 0
    with Cons.prems show ?thesis
      by (auto split: if_splits sum.splits result.splits)
  next
    case (Suc q)
    with Cons.prems show ?thesis
      by (auto simp add: Cons.IH split: if_splits sum.splits result.splits)
  qed
qed

lemma length_observed_le: "length (observed es d kw) \<le> length es"
  by (induction es arbitrary: d kw) (auto split: sum.splits result.splits)

lemma run_editors_observed:
  "run_editors es d kw = Inr (d', kw') \<Longrightarrow>
   kw' = foldl (++) kw (map snd (observed es d kw)) \<and> length (observed es d kw) = length es"
proof (induction es arbitrary: d kw)
  case Nil
  then show ?case by simp
next
  case (Cons e es)
  from Cons.prems show ?case
    by (auto simp add: convert_def dest!: Cons.IH split: if_splits sum.splits result.splits)
qed

lemma run_editors_append:
  "run_editors (es @ es') d kw
     = and_then (run_editors es d kw) (\<lambda>(d', kw'). run_editors es' d' kw')"
  by (induction es arbitrary: d kw) (auto simp add: and_then_def split: sum.splits)

lemma run_editors_split:
  "run_editors es d kw
     = and_then (run_editors (take p es) d kw) (\<lambda>(d', kw'). run_editors (drop p es) d' kw')"
  using run_editors_append[of "take p es" "drop p es" d kw] by simp

lemma run_editors_prefix_returns:
  assumes "run_editors (take p es) d kw = Inr r" and "i \<le> p"
  shows "\<exists>r'. run_editors (take i es) d kw = Inr r'"
proof -
  have "take i (take p es) = take i es" using assms(2) by (simp add: min_def)
  then have "run_editors (take p es) d kw
      = and_then (run_editors (take i es) d kw)
          (\<lambda>(d', kw'). run_editors (drop i (take p es)) d' kw')"
    using run_editors_split[of "take p es" d kw i] by simp
  with assms(1) show ?thesis by (cases "run_editors (take i es) d kw") (simp_all add: and_then_def)
qed

lemma observed_nth_run:
  "p < length es \<Longrightarrow> run_editors (take p es) d kw = Inr (d', kw') \<Longrightarrow> \<not> kwargs_clash kw' \<Longrightarrow>
   p < length (observed es d kw)
   \<and> observed es d kw ! p = (kw', add_kwargs_of (es ! p) d' kw')"
proof (induction es arbitrary: p d kw)
  case Nil
  then show ?case by simp
next
  case (Cons e es)
  show ?case
  proof (cases p)
    case 0
    with Cons.prems show ?thesis
      by (auto simp add: add_kwargs_of_def split: sum.splits result.splits)
  next
    case (Suc q)
    with Cons.prems obtain d1 kw1 where c: "convert e d kw = Inr (d1, kw1)"
      and r: "run_editors (take q es) d1 kw1 = Inr (d', kw')"
      by (auto split: sum.splits)
    from Suc Cons.prems have q: "q < length es" by simp
    from Cons.IH[OF q r Cons.prems(3)]
    have ih: "q < length (observed es d1 kw1)"
      "observed es d1 kw1 ! q = (kw', add_kwargs_of (es ! q) d' kw')" by simp_all
    from c have "observed (e # es) d kw = (kw, add_kwargs_of e d kw) # observed es d1 kw1"
      by (auto simp add: convert_def add_kwargs_of_def split: if_splits sum.splits result.splits)
    with ih Suc show ?thesis by simp
  qed
qed

lemma foldl_map_add_None:
  "(foldl (++) m us k = None) = (m k = None \<and> (\<forall>u\<in>set us. u k = None))"
  by (induction us arbitrary: m) (auto simp add: map_add_None)


lemma run_editors_take_Suc:
  assumes "p < length es" and "run_editors (take p es) d kw = Inr (d', kw')"
  shows "run_editors (take (Suc p) es) d kw = convert (es ! p) d' kw'"
proof -
  have "take (Suc p) es = take p es @ [es ! p]"
    using assms(1) by (rule take_Suc_conv_app_nth)
  then have "run_editors (take (Suc p) es) d kw
      = and_then (run_editors (take p es) d kw) (\<lambda>(d', kw'). run_editors [es ! p] d' kw')"
    by (simp only: run_editors_append)
  with assms(2) show ?thesis
    by (simp add: and_then_def split: sum.splits)
qed

lemma convert_returns_no_clash: "convert call d kw = Inr r \<Longrightarrow> \<not> kwargs_clash kw"
  by (auto simp add: convert_def)

lemma convert_unfold:
  "\<not> kwargs_clash kw \<Longrightarrow>
   convert call d kw = (case call d kw of
                          Inl e \<Rightarrow> Inl e
                        | Inr (Plain d') \<Rightarrow> Inr (d', kw)
                        | Inr (WithKwargs d' u) \<Rightarrow> Inr (d', kw ++ u))"
  by (simp add: convert_def split: sum.splits result.splits)

lemma all_take_nth:
  "p \<le> length xs \<Longrightarrow> (\<forall>u\<in>set (map f (take p xs)). P u) = (\<forall>i<p. P (f (xs ! i)))"
  by (auto simp add: all_set_conv_all_nth)

text \<open>
  Claim C6. Let the units before position \<open>p\<close> of a pipeline have run, from the
  initial keyword arguments \<open>kwargs\<close>, and returned the data \<open>d\<close> and the keyword
  arguments \<open>kw\<close>, and let \<open>kw\<close> be free of the names \<^verbatim>\<open>self\<close> and \<^verbatim>\<open>data\<close>, so that
  the unit at \<open>p\<close> is reached. Then the pipeline goes on with \<^verbatim>\<open>convert\<close> of that
  unit on \<open>d\<close> and \<open>kw\<close>, which calls the unit with exactly \<open>kw\<close> and hands on \<open>kw\<close>
  updated by what the unit returns. \<open>kw\<close> is the initial \<open>kwargs\<close> updated, in order, by
  what the units at the positions below \<open>p\<close> returned from their calls: a key is
  absent from \<open>kw\<close> exactly when it is absent initially and none of the units below
  \<open>p\<close> wrote it. Nothing of the units at \<open>p\<close> and behind enters \<open>kw\<close>: a pipeline with
  the same units below \<open>p\<close> reaches position \<open>p\<close> with the same \<open>d\<close> and \<open>kw\<close>. In
  the pipeline \<open>[A, B]\<close>, B finds 1 under \<^verbatim>\<open>"k"\<close>; in \<open>[B, A]\<close>, B finds what the
  initial arguments hold under \<^verbatim>\<open>"k"\<close>, nothing when they have no such key.
\<close>

theorem unit_observes_earlier_updates_only:
  "(p < length editors \<and> run_editors (take p editors) data kwargs = Inr (d, kw)
      \<and> \<not> kwargs_clash kw \<longrightarrow>
        run_editors (take (Suc p) editors) data kwargs = convert (editors ! p) d kw
      \<and> convert (editors ! p) d kw
          = (case (editors ! p) d kw of
               Inl e \<Rightarrow> Inl e
             | Inr (Plain d') \<Rightarrow> Inr (d', kw)
             | Inr (WithKwargs d' u) \<Rightarrow> Inr (d', kw ++ u))
      \<and> run_editors editors data kwargs
          = and_then (convert (editors ! p) d kw)
              (\<lambda>(d', kw'). run_editors (drop (Suc p) editors) d' kw')
      \<and> p < length (observed editors data kwargs)
      \<and> observed editors data kwargs ! p = (kw, add_kwargs_of (editors ! p) d kw)
      \<and> (\<forall>i<p. \<exists>d\<^sub>i kw\<^sub>i.
             run_editors (take i editors) data kwargs = Inr (d\<^sub>i, kw\<^sub>i)
           \<and> \<not> kwargs_clash kw\<^sub>i
           \<and> observed editors data kwargs ! i = (kw\<^sub>i, add_kwargs_of (editors ! i) d\<^sub>i kw\<^sub>i))
      \<and> kw = foldl (++) kwargs (map snd (take p (observed editors data kwargs)))
      \<and> (\<forall>k. (kw k = None)
              = (kwargs k = None \<and> (\<forall>i<p. snd (observed editors data kwargs ! i) k = None)))
      \<and> (take p editors' = take p editors \<longrightarrow>
            run_editors (take p editors') data kwargs = Inr (d, kw)))
   \<and> (\<not> kwargs_clash kw0 \<longrightarrow>
        DistributeEditor_convertData [writes_k, reads_k] d0 kw0 = Inr (Some 1))
   \<and> (\<not> kwargs_clash kw0 \<longrightarrow>
        DistributeEditor_convertData [reads_k, writes_k] d0 kw0 = Inr (kw0 ''k''))"
proof -
  have main: "run_editors (take (Suc p) editors) data kwargs = convert (editors ! p) d kw
      \<and> convert (editors ! p) d kw
          = (case (editors ! p) d kw of
               Inl e \<Rightarrow> Inl e
             | Inr (Plain d') \<Rightarrow> Inr (d', kw)
             | Inr (WithKwargs d' u) \<Rightarrow> Inr (d', kw ++ u))
      \<and> run_editors editors data kwargs
          = and_then (convert (editors ! p) d kw)
              (\<lambda>(d', kw'). run_editors (drop (Suc p) editors) d' kw')
      \<and> p < length (observed editors data kwargs)
      \<and> observed editors data kwargs ! p = (kw, add_kwargs_of (editors ! p) d kw)
      \<and> (\<forall>i<p. \<exists>d\<^sub>i kw\<^sub>i.
             run_editors (take i editors) data kwargs = Inr (d\<^sub>i, kw\<^sub>i)
           \<and> \<not> kwargs_clash kw\<^sub>i
           \<and> observed editors data kwargs ! i = (kw\<^sub>i, add_kwargs_of (editors ! i) d\<^sub>i kw\<^sub>i))
      \<and> kw = foldl (++) kwargs (map snd (take p (observed editors data kwargs)))
      \<and> (\<forall>k. (kw k = None)
              = (kwargs k = None \<and> (\<forall>i<p. snd (observed editors data kwargs ! i) k = None)))
      \<and> (take p editors' = take p editors \<longrightarrow>
            run_editors (take p editors') data kwargs = Inr (d, kw))"
    if p: "p < length editors" and r: "run_editors (take p editors) data kwargs = Inr (d, kw)"
      and nc: "\<not> kwargs_clash kw"
  proof -
    have A: "run_editors (take (Suc p) editors) data kwargs = convert (editors ! p) d kw"
      using p r by (rule run_editors_take_Suc)
    have B: "convert (editors ! p) d kw
          = (case (editors ! p) d kw of
               Inl e \<Rightarrow> Inl e
             | Inr (Plain d') \<Rightarrow> Inr (d', kw)
             | Inr (WithKwargs d' u) \<Rightarrow> Inr (d', kw ++ u))"
      using nc by (rule convert_unfold)
    have "run_editors editors data kwargs
        = and_then (run_editors (take (Suc p) editors) data kwargs)
            (\<lambda>(d', kw'). run_editors (drop (Suc p) editors) d' kw')"
      by (rule run_editors_split)
    then have C: "run_editors editors data kwargs
          = and_then (convert (editors ! p) d kw)
              (\<lambda>(d', kw'). run_editors (drop (Suc p) editors) d' kw')"
      by (simp only: A)
    have D: "p < length (observed editors data kwargs)"
      "observed editors data kwargs ! p = (kw, add_kwargs_of (editors ! p) d kw)"
      using observed_nth_run[OF p r nc] by simp_all
    have E: "\<exists>d\<^sub>i kw\<^sub>i.
             run_editors (take i editors) data kwargs = Inr (d\<^sub>i, kw\<^sub>i)
           \<and> \<not> kwargs_clash kw\<^sub>i
           \<and> observed editors data kwargs ! i = (kw\<^sub>i, add_kwargs_of (editors ! i) d\<^sub>i kw\<^sub>i)"
      if i: "i < p" for i
    proof -
      from i p have il: "i < length editors" by simp
      from run_editors_prefix_returns[OF r, of i] i
      obtain d\<^sub>i kw\<^sub>i where ri: "run_editors (take i editors) data kwargs = Inr (d\<^sub>i, kw\<^sub>i)"
        by fastforce
      from run_editors_prefix_returns[OF r, of "Suc i"] i
      obtain r' where "run_editors (take (Suc i) editors) data kwargs = Inr r'"
        by fastforce
      then have "convert (editors ! i) d\<^sub>i kw\<^sub>i = Inr r'"
        using run_editors_take_Suc[OF il ri] by simp
      then have nci: "\<not> kwargs_clash kw\<^sub>i" by (rule convert_returns_no_clash)
      from observed_nth_run[OF il ri nci] ri nci show ?thesis by blast
    qed
    have F: "kw = foldl (++) kwargs (map snd (take p (observed editors data kwargs)))"
      using observed_nth_fst[OF D(1)] D(2) by simp
    have G: "(kw k = None)
              = (kwargs k = None \<and> (\<forall>i<p. snd (observed editors data kwargs ! i) k = None))" for k
    proof -
      have "p \<le> length (observed editors data kwargs)" using D(1) by simp
      then have "(\<forall>u\<in>set (map snd (take p (observed editors data kwargs))). u k = None)
          = (\<forall>i<p. snd (observed editors data kwargs ! i) k = None)"
        by (rule all_take_nth)
      then show ?thesis
        using foldl_map_add_None[of kwargs "map snd (take p (observed editors data kwargs))" k] F
        by simp
    qed
    have H: "take p editors' = take p editors \<longrightarrow>
            run_editors (take p editors') data kwargs = Inr (d, kw)"
      using r by simp
    from A B C D E F G H show ?thesis by blast
  qed
  have ex1: "DistributeEditor_convertData [writes_k, reads_k] d0 kw0 = Inr (Some 1)"
    if "\<not> kwargs_clash kw0"
    using that
    by (simp add: DistributeEditor_convertData_def convert_def writes_k_def reads_k_def
          kwargs_clash_def)
  have ex2: "DistributeEditor_convertData [reads_k, writes_k] d0 kw0 = Inr (kw0 ''k'')"
    if "\<not> kwargs_clash kw0"
    using that
    by (simp add: DistributeEditor_convertData_def convert_def writes_k_def reads_k_def
          kwargs_clash_def)
  show ?thesis
    apply (intro conjI)
      apply (rule impI, elim conjE, rule main, assumption+)
     apply (rule impI, rule ex1, assumption)
    apply (rule impI, rule ex2, assumption)
    done
qed


theorem unit_observes_earlier_updates_only_witness:
  "1 < length [writes_k, reads_k]
   \<and> run_editors (take 1 [writes_k, reads_k]) None Map.empty = Inr (None, [''k'' \<mapsto> 1])
   \<and> \<not> kwargs_clash [''k'' \<mapsto> (1::int)]
   \<and> take 1 [writes_k, writes_k] = take 1 [writes_k, reads_k]
   \<and> \<not> kwargs_clash (Map.empty :: int kwargs)
   \<and> run_editors (take (Suc 1) [writes_k, reads_k]) None Map.empty
       = convert ([writes_k, reads_k] ! 1) None [''k'' \<mapsto> 1]
   \<and> observed [writes_k, reads_k] None Map.empty ! 1
       = ([''k'' \<mapsto> 1], add_kwargs_of ([writes_k, reads_k] ! 1) None [''k'' \<mapsto> 1])
   \<and> run_editors (take 1 [writes_k, writes_k]) None Map.empty = Inr (None, [''k'' \<mapsto> 1])
   \<and> DistributeEditor_convertData [writes_k, reads_k] None Map.empty = Inr (Some 1)
   \<and> DistributeEditor_convertData [reads_k, writes_k] None Map.empty = Inr None"
proof -
  have h1: "1 < length [writes_k, reads_k]" by simp
  have h2: "run_editors (take 1 [writes_k, reads_k]) None Map.empty = Inr (None, [''k'' \<mapsto> 1])"
    by (simp add: writes_k_def convert_def kwargs_clash_def)
  have h3: "\<not> kwargs_clash [''k'' \<mapsto> (1::int)]"
    by (simp add: kwargs_clash_def)
  have h4: "take 1 [writes_k, writes_k] = take 1 [writes_k, reads_k]" by simp
  have h5: "\<not> kwargs_clash (Map.empty :: int kwargs)"
    by (simp add: kwargs_clash_def)
  note t = unit_observes_earlier_updates_only
     [where p = 1 and editors = "[writes_k, reads_k]" and data = None and kwargs = Map.empty
        and d = None and kw = "[''k'' \<mapsto> 1]" and editors' = "[writes_k, writes_k]"
        and ?kw0.0 = Map.empty and ?d0.0 = None]
  from h1 h2 h3 have hh: "1 < length [writes_k, reads_k]
      \<and> run_editors (take 1 [writes_k, reads_k]) None Map.empty = Inr (None, [''k'' \<mapsto> 1])
      \<and> \<not> kwargs_clash [''k'' \<mapsto> (1::int)]"
    by (intro conjI)
  note c = mp[OF conjunct1[OF t] hh]
  note A = c[THEN conjunct1]
  note D = c[THEN conjunct2, THEN conjunct2, THEN conjunct2, THEN conjunct2, THEN conjunct1]
  note H = c[THEN conjunct2, THEN conjunct2, THEN conjunct2, THEN conjunct2, THEN conjunct2,
             THEN conjunct2, THEN conjunct2, THEN conjunct2, THEN mp, OF h4]
  note x1 = mp[OF conjunct1[OF conjunct2[OF t]] h5]
  have x2: "DistributeEditor_convertData [reads_k, writes_k] None Map.empty = Inr None"
    using mp[OF conjunct2[OF conjunct2[OF t]] h5] by simp
  from h1 h2 h3 h4 h5 A D H x1 x2 show ?thesis by (intro conjI)
qed

subsection \<open>The runs of the distributing unit\<close>

lemma collect_returns:
  "collect xs = Inr ys \<Longrightarrow> length ys = length xs \<and> (\<forall>i<length xs. xs ! i = Inr (ys ! i))"
proof (induction xs arbitrary: ys)
  case Nil
  then show ?case by simp
next
  case (Cons x xs)
  from Cons.prems obtain y ys' where x: "x = Inr y" and c: "collect xs = Inr ys'"
    and ys: "ys = y # ys'"
    by (auto simp add: and_then_def split: sum.splits)
  from Cons.IH[OF c] have ih: "length ys' = length xs" "\<forall>i<length xs. xs ! i = Inr (ys' ! i)"
    by simp_all
  show ?case
  proof (intro conjI allI impI)
    show "length ys = length (x # xs)" using ih(1) ys by simp
    fix i assume "i < length (x # xs)"
    then show "(x # xs) ! i = Inr (ys ! i)"
      using ih(2) x ys by (cases i) simp_all
  qed
qed

lemma the_arrays_returns: "the_arrays rs = Some arrays \<Longrightarrow> rs = map Arr arrays"
proof (induction rs arbitrary: arrays)
  case Nil
  then show ?case by simp
next
  case (Cons r rs)
  then show ?case by (cases r) auto
qed

lemma np_concatenate_returns:
  assumes "np_concatenate rs = Inr out"
  shows "\<exists>arrays. rs = map Arr arrays \<and> arrays \<noteq> []
           \<and> (\<forall>a\<in>set arrays. shape a \<noteq> [] \<and> tl (shape a) = tl (shape (hd arrays)))
           \<and> out = \<lparr>shape = sum_list (map (\<lambda>a. hd (shape a)) arrays) # tl (shape (hd arrays)),
                     dtype = result_type arrays, elems = concat (map elems arrays)\<rparr>"
proof -
  obtain arrays where s: "the_arrays rs = Some arrays"
    using assms by (cases "the_arrays rs") (simp_all only: np_concatenate_def option.case sum.distinct)
  define A where "A = list_ex (\<lambda>a. shape a = []) arrays"
  define B where "B = list_ex (\<lambda>a. tl (shape a) \<noteq> tl (shape (hd arrays))) arrays"
  define R where "R = \<lparr>shape = sum_list (map (\<lambda>a. hd (shape a)) arrays) # tl (shape (hd arrays)),
                     dtype = result_type arrays, elems = concat (map elems arrays)\<rparr>"
  have eq: "(if arrays = [] then Inl ValueError
             else if A then Inl ValueError else if B then Inl ValueError else Inr R) = Inr out"
    using assms unfolding np_concatenate_def s option.case A_def B_def R_def .
  have ne: "arrays \<noteq> []" using eq by (cases "arrays = []") simp_all
  have nA: "\<not> A" using eq ne by (cases A) simp_all
  have nB: "\<not> B" using eq ne nA by (cases B) simp_all
  have out: "out = R" using eq ne nA nB by simp
  have sh: "\<forall>a\<in>set arrays. shape a \<noteq> [] \<and> tl (shape a) = tl (shape (hd arrays))"
    using nA nB unfolding A_def B_def list_ex_iff by blast
  have "rs = map Arr arrays" using s by (rule the_arrays_returns)
  with ne sh out show ?thesis unfolding R_def by blast
qed

lemma np_concatenate_one:
  "shape a \<noteq> [] \<Longrightarrow> np_concatenate [Arr a] = Inr a"
  by (cases "dtype a") (simp_all add: np_concatenate_def result_type_def)

lemma DistributeEditor_call_returns:
  assumes "DistributeEditor_call editors data kwargs = Inr res"
  shows "\<not> kwargs_clash kwargs
     \<and> (\<exists>xs out. collect (map (\<lambda>d. DistributeEditor_convertData editors d kwargs) data) = Inr xs
            \<and> np_concatenate xs = Inr out \<and> res = Plain (Arr out))"
proof -
  have nc: "\<not> kwargs_clash kwargs"
    using assms by (cases "kwargs_clash kwargs") (simp_all add: DistributeEditor_call_def)
  then have eq: "and_then (collect (map (\<lambda>d. DistributeEditor_convertData editors d kwargs) data))
             (\<lambda>rs. and_then (np_concatenate rs) (\<lambda>out. Inr (Plain (Arr out)))) = Inr res"
    using assms by (simp add: DistributeEditor_call_def)
  then obtain xs where c: "collect (map (\<lambda>d. DistributeEditor_convertData editors d kwargs) data) = Inr xs"
    by (cases "collect (map (\<lambda>d. DistributeEditor_convertData editors d kwargs) data)")
       (simp_all add: and_then_def)
  with eq have eq2: "and_then (np_concatenate xs) (\<lambda>out. Inr (Plain (Arr out))) = Inr res"
    by (simp add: and_then_def)
  then obtain out where o: "np_concatenate xs = Inr out"
    by (cases "np_concatenate xs") (simp_all add: and_then_def)
  with eq2 have "res = Plain (Arr out)" by (simp add: and_then_def)
  with nc c o show ?thesis by blast
qed

lemma DistributeEditor_call_one:
  assumes "\<not> kwargs_clash kwargs" and "DistributeEditor_convertData editors d kwargs = Inr (Arr r)"
    and "shape r \<noteq> []"
  shows "DistributeEditor_call editors [d] kwargs = Inr (Plain (Arr r))"
  using assms by (simp add: DistributeEditor_call_def and_then_def np_concatenate_one)

lemma DistributeEditor_convertData_returns:
  assumes "DistributeEditor_convertData editors d kwargs = Inr r"
  shows "\<exists>kw. run_editors editors d kwargs = Inr (r, kw)"
  using assms
  by (cases "run_editors editors d kwargs")
     (auto simp add: DistributeEditor_convertData_def split: if_splits)

lemma convert_DistributeEditor_call_kwargs:
  "convert (DistributeEditor_call es) ds kw = Inr (out, kw') \<Longrightarrow> kw' = kw"
  by (auto simp add: convert_def DistributeEditor_call_def and_then_def
        split: if_splits sum.splits result.splits)

lemma returns_seen_remember_input_run:
  "DistributeEditor_convertData [returns_seen, remember_input] (Arr a) Map.empty = Inr (Arr a)"
  by (simp add: DistributeEditor_convertData_def convert_def returns_seen_def remember_input_def
        kwargs_clash_def)

text \<open>
  Claim C8. When \<^verbatim>\<open>DistributeEditor.call\<close> returns, its result is put together
  from the results of running the sub-pipeline on every element by itself, each run
  starting from the keyword arguments of the caller: the run on the element at \<open>j\<close>
  returns in the call what it returns when the element is the only one, so nothing
  written in the run on another element reaches it. What a run has written stays
  in its own keyword arguments \<open>kw\<^sub>j\<close>: the keyword arguments that \<^verbatim>\<open>convert\<close> returns
  for the distributing unit are those of the caller.
\<close>

theorem runs_have_private_kwargs:
  "(DistributeEditor_call editors data kwargs = Inr res \<longrightarrow>
      (\<exists>rs out. length rs = length data
         \<and> (\<forall>j<length data.
               (\<exists>kw\<^sub>j. run_editors editors (data ! j) kwargs = Inr (Arr (rs ! j), kw\<^sub>j))
             \<and> DistributeEditor_convertData editors (data ! j) kwargs = Inr (Arr (rs ! j))
             \<and> DistributeEditor_call editors [data ! j] kwargs = Inr (Plain (Arr (rs ! j))))
         \<and> res = Plain (Arr out)
         \<and> shape out = sum_list (map (\<lambda>r. hd (shape r)) rs) # tl (shape (hd rs))
         \<and> elems out = concat (map elems rs)))
   \<and> (convert (DistributeEditor_call editors) data kwargs = Inr (res', kw') \<longrightarrow> kw' = kwargs)"
proof (intro conjI impI)
  assume call: "DistributeEditor_call editors data kwargs = Inr res"
  from DistributeEditor_call_returns[OF call]
  obtain xs out where nc: "\<not> kwargs_clash kwargs"
    and c: "collect (map (\<lambda>d. DistributeEditor_convertData editors d kwargs) data) = Inr xs"
    and o: "np_concatenate xs = Inr out" and res: "res = Plain (Arr out)"
    by blast
  from np_concatenate_returns[OF o]
  obtain rs where xs: "xs = map Arr rs" and ne: "rs \<noteq> []"
    and sh: "\<forall>a\<in>set rs. shape a \<noteq> [] \<and> tl (shape a) = tl (shape (hd rs))"
    and out: "out = \<lparr>shape = sum_list (map (\<lambda>a. hd (shape a)) rs) # tl (shape (hd rs)),
                     dtype = result_type rs, elems = concat (map elems rs)\<rparr>"
    by blast
  from collect_returns[OF c] xs
  have len: "length rs = length data"
    and each: "\<forall>i<length data. DistributeEditor_convertData editors (data ! i) kwargs = Inr (xs ! i)"
    by simp_all
  have run: "(\<exists>kw\<^sub>j. run_editors editors (data ! j) kwargs = Inr (Arr (rs ! j), kw\<^sub>j))
             \<and> DistributeEditor_convertData editors (data ! j) kwargs = Inr (Arr (rs ! j))
             \<and> DistributeEditor_call editors [data ! j] kwargs = Inr (Plain (Arr (rs ! j)))"
    if j: "j < length data" for j
  proof -
    from j len have jr: "j < length rs" by simp
    from each j have "DistributeEditor_convertData editors (data ! j) kwargs = Inr (xs ! j)"
      by blast
    then have cd: "DistributeEditor_convertData editors (data ! j) kwargs = Inr (Arr (rs ! j))"
      using xs jr by simp
    from jr sh have "shape (rs ! j) \<noteq> []" by (meson nth_mem)
    with nc cd have "DistributeEditor_call editors [data ! j] kwargs = Inr (Plain (Arr (rs ! j)))"
      by (intro DistributeEditor_call_one)
    with cd DistributeEditor_convertData_returns[OF cd] show ?thesis by blast
  qed
  have "shape out = sum_list (map (\<lambda>r. hd (shape r)) rs) # tl (shape (hd rs))"
    "elems out = concat (map elems rs)"
    by (simp_all add: out)
  with len run res
  show "\<exists>rs out. length rs = length data
         \<and> (\<forall>j<length data.
               (\<exists>kw\<^sub>j. run_editors editors (data ! j) kwargs = Inr (Arr (rs ! j), kw\<^sub>j))
             \<and> DistributeEditor_convertData editors (data ! j) kwargs = Inr (Arr (rs ! j))
             \<and> DistributeEditor_call editors [data ! j] kwargs = Inr (Plain (Arr (rs ! j))))
         \<and> res = Plain (Arr out)
         \<and> shape out = sum_list (map (\<lambda>r. hd (shape r)) rs) # tl (shape (hd rs))
         \<and> elems out = concat (map elems rs)"
    by blast
next
  assume "convert (DistributeEditor_call editors) data kwargs = Inr (res', kw')"
  then show "kw' = kwargs" by (rule convert_DistributeEditor_call_kwargs)
qed


theorem runs_have_private_kwargs_witness:
  "DistributeEditor_call [returns_seen, remember_input] [Arr \<lparr>shape = [1], dtype = Float64, elems = [Fin 1]\<rparr>,
        Arr \<lparr>shape = [1], dtype = Float64, elems = [Fin 2]\<rparr> :: unit pyobj] Map.empty = Inr (Plain (Arr \<lparr>shape = [2], dtype = Float64, elems = [Fin 1, Fin 2]\<rparr>))
   \<and> convert (DistributeEditor_call [returns_seen, remember_input]) [Arr \<lparr>shape = [1], dtype = Float64, elems = [Fin 1]\<rparr>,
        Arr \<lparr>shape = [1], dtype = Float64, elems = [Fin 2]\<rparr> :: unit pyobj] Map.empty = Inr (Arr \<lparr>shape = [2], dtype = Float64, elems = [Fin 1, Fin 2]\<rparr>, Map.empty)
   \<and> (\<exists>rs out. length rs = length [Arr \<lparr>shape = [1], dtype = Float64, elems = [Fin 1]\<rparr>,
        Arr \<lparr>shape = [1], dtype = Float64, elems = [Fin 2]\<rparr> :: unit pyobj]
         \<and> (\<forall>j<length [Arr \<lparr>shape = [1], dtype = Float64, elems = [Fin 1]\<rparr>,
        Arr \<lparr>shape = [1], dtype = Float64, elems = [Fin 2]\<rparr> :: unit pyobj].
               (\<exists>kw\<^sub>j. run_editors [returns_seen, remember_input] ([Arr \<lparr>shape = [1], dtype = Float64, elems = [Fin 1]\<rparr>,
        Arr \<lparr>shape = [1], dtype = Float64, elems = [Fin 2]\<rparr> :: unit pyobj] ! j) Map.empty = Inr (Arr (rs ! j), kw\<^sub>j))
             \<and> DistributeEditor_convertData [returns_seen, remember_input] ([Arr \<lparr>shape = [1], dtype = Float64, elems = [Fin 1]\<rparr>,
        Arr \<lparr>shape = [1], dtype = Float64, elems = [Fin 2]\<rparr> :: unit pyobj] ! j) Map.empty = Inr (Arr (rs ! j))
             \<and> DistributeEditor_call [returns_seen, remember_input] [[Arr \<lparr>shape = [1], dtype = Float64, elems = [Fin 1]\<rparr>,
        Arr \<lparr>shape = [1], dtype = Float64, elems = [Fin 2]\<rparr> :: unit pyobj] ! j] Map.empty = Inr (Plain (Arr (rs ! j))))
         \<and> (Plain (Arr \<lparr>shape = [2], dtype = Float64, elems = [Fin 1, Fin 2]\<rparr>)
               :: (unit pyobj, unit pyobj) result) = Plain (Arr out)
         \<and> shape out = sum_list (map (\<lambda>r. hd (shape r)) rs) # tl (shape (hd rs))
         \<and> elems out = concat (map elems rs))"
proof -
  have nc: "\<not> kwargs_clash (Map.empty :: unit pyobj kwargs)"
    by (simp add: kwargs_clash_def)
  have h1: "DistributeEditor_call [returns_seen, remember_input] [Arr \<lparr>shape = [1], dtype = Float64, elems = [Fin 1]\<rparr>,
        Arr \<lparr>shape = [1], dtype = Float64, elems = [Fin 2]\<rparr> :: unit pyobj] Map.empty = Inr (Plain (Arr \<lparr>shape = [2], dtype = Float64, elems = [Fin 1, Fin 2]\<rparr>))"
    unfolding DistributeEditor_call_def using nc
    by (simp add: returns_seen_remember_input_run and_then_def np_concatenate_def result_type_def)
  have h2: "convert (DistributeEditor_call [returns_seen, remember_input]) [Arr \<lparr>shape = [1], dtype = Float64, elems = [Fin 1]\<rparr>,
        Arr \<lparr>shape = [1], dtype = Float64, elems = [Fin 2]\<rparr> :: unit pyobj] Map.empty = Inr (Arr \<lparr>shape = [2], dtype = Float64, elems = [Fin 1, Fin 2]\<rparr>, Map.empty)"
    unfolding convert_def h1 using nc by simp
  note t = runs_have_private_kwargs
     [where editors = "[returns_seen, remember_input]" and data = "[Arr \<lparr>shape = [1], dtype = Float64, elems = [Fin 1]\<rparr>,
        Arr \<lparr>shape = [1], dtype = Float64, elems = [Fin 2]\<rparr> :: unit pyobj]" and kwargs = Map.empty
        and res = "Plain (Arr \<lparr>shape = [2], dtype = Float64, elems = [Fin 1, Fin 2]\<rparr>)" and res' = "Arr \<lparr>shape = [2], dtype = Float64, elems = [Fin 1, Fin 2]\<rparr>" and kw' = Map.empty]
  note c = mp[OF conjunct1[OF t] h1]
  show ?thesis by (rule conjI[OF h1 conjI[OF h2 c]])
qed

subsection \<open>The output of the distributing unit\<close>

lemma collect_all_returned:
  "length ys = length xs \<Longrightarrow> (\<forall>i<length xs. xs ! i = Inr (ys ! i)) \<Longrightarrow> collect xs = Inr ys"
proof (induction xs arbitrary: ys)
  case Nil
  then show ?case by simp
next
  case (Cons x xs)
  then obtain y ys' where ys: "ys = y # ys'" by (cases ys) auto
  from Cons.prems(2) have "(x # xs) ! 0 = Inr (ys ! 0)" by blast
  then have x: "x = Inr y" using ys by simp
  have "collect xs = Inr ys'"
  proof (rule Cons.IH)
    show "length ys' = length xs" using Cons.prems(1) ys by simp
    show "\<forall>i<length xs. xs ! i = Inr (ys' ! i)"
    proof (intro allI impI)
      fix i assume "i < length xs"
      then have "Suc i < length (x # xs)" by simp
      with Cons.prems(2) have "(x # xs) ! Suc i = Inr (ys ! Suc i)" by blast
      then show "xs ! i = Inr (ys' ! i)" using ys by simp
    qed
  qed
  with x ys show ?case by (simp add: and_then_def)
qed

lemma the_arrays_Arr: "the_arrays (map Arr rs) = Some rs"
  by (induction rs) simp_all

lemma np_concatenate_arrays:
  assumes "rs \<noteq> []" and "\<forall>r\<in>set rs. shape r \<noteq> [] \<and> tl (shape r) = tl (shape (hd rs))"
  shows "np_concatenate (map Arr rs)
     = Inr \<lparr>shape = sum_list (map (\<lambda>r. hd (shape r)) rs) # tl (shape (hd rs)),
            dtype = result_type rs, elems = concat (map elems rs)\<rparr>"
proof -
  define A where "A = list_ex (\<lambda>a. shape a = []) rs"
  define B where "B = list_ex (\<lambda>a. tl (shape a) \<noteq> tl (shape (hd rs))) rs"
  have nA: "\<not> A" and nB: "\<not> B" using assms(2) unfolding A_def B_def list_ex_iff by blast+
  have "np_concatenate (map Arr rs)
      = (if rs = [] then Inl ValueError else if A then Inl ValueError
         else if B then Inl ValueError
         else Inr \<lparr>shape = sum_list (map (\<lambda>r. hd (shape r)) rs) # tl (shape (hd rs)),
            dtype = result_type rs, elems = concat (map elems rs)\<rparr>)"
    unfolding np_concatenate_def the_arrays_Arr option.case A_def B_def ..
  with assms(1) nA nB show ?thesis by simp
qed

lemma DistributeEditor_call_empty: "DistributeEditor_call editors [] kwargs \<noteq> Inr res"
  by (simp add: DistributeEditor_call_def and_then_def np_concatenate_def)

lemma concat_block:
  "j < length xss \<Longrightarrow>
   take (length (xss ! j)) (drop (length (concat (take j xss))) (concat xss)) = xss ! j"
proof -
  assume j: "j < length xss"
  then have "xss = take j xss @ xss ! j # drop (Suc j) xss" by (rule id_take_nth_drop)
  then have "concat xss = concat (take j xss) @ xss ! j @ concat (drop (Suc j) xss)"
    by (metis concat.simps(2) concat_append)
  then show ?thesis by simp
qed


lemma DistributeEditor_call_forward:
  fixes editors :: "('x pyobj, 'x pyobj, 'v) editor list"
  assumes nc: "\<not> kwargs_clash kwargs" and ne: "rs \<noteq> []" and len: "length rs = length data"
    and runs: "\<forall>i<length data.
            DistributeEditor_convertData editors (data ! i) kwargs = Inr (Arr (rs ! i))"
    and shapes: "\<forall>r\<in>set rs. shape r \<noteq> [] \<and> tl (shape r) = tl (shape (hd rs))"
  shows "DistributeEditor_call editors data kwargs = Inr (Plain (Arr \<lparr>shape = sum_list (map (\<lambda>r. hd (shape r)) rs) # tl (shape (hd rs)),
                     dtype = result_type rs, elems = concat (map elems rs)\<rparr>))"
proof -
  have "collect (map (\<lambda>d. DistributeEditor_convertData editors d kwargs) data) = Inr (map Arr rs)"
    by (rule collect_all_returned) (use len runs in simp_all)
  moreover have "np_concatenate (map Arr rs :: 'x pyobj list)
      = Inr \<lparr>shape = sum_list (map (\<lambda>r. hd (shape r)) rs) # tl (shape (hd rs)),
                     dtype = result_type rs, elems = concat (map elems rs)\<rparr>"
    using ne shapes by (rule np_concatenate_arrays)
  ultimately show ?thesis
    using nc by (simp add: DistributeEditor_call_def and_then_def)
qed

lemma three_blocks:
  assumes "map (\<lambda>r. hd (shape r)) rs = [1, 2, 1]"
  shows "sum_list (map (\<lambda>r. hd (shape r)) rs) = 4"
    and "concat (map elems rs) = elems (rs ! 0) @ elems (rs ! 1) @ elems (rs ! 2)"
proof -
  show "sum_list (map (\<lambda>r. hd (shape r)) rs) = 4" by (simp only: assms) simp
  from assms obtain a b c where "rs = [a, b, c]" by (auto simp add: map_eq_Cons_conv)
  then show "concat (map elems rs) = elems (rs ! 0) @ elems (rs ! 1) @ elems (rs ! 2)" by simp
qed

text \<open>
  Claim C7 as stated: for every sequence of inputs the output is the concatenation of
  the per-element results. For the empty sequence there is no output:
  \<^verbatim>\<open>np.concatenate([], 0)\<close> raises \<^verbatim>\<open>ValueError\<close>. The same happens when the
  results do not fit together, here two arrays of the shapes \<open>(1, 2)\<close> and \<open>(1, 3)\<close>
  that an empty sub-pipeline hands on as they are.
\<close>

theorem DistributeEditor_call_empty_input_ValueError:
  "DistributeEditor_call ([] :: (unit pyobj, unit pyobj, unit pyobj) editor list) [] Map.empty
     = Inl ValueError
   \<and> DistributeEditor_call ([] :: (unit pyobj, unit pyobj, unit pyobj) editor list)
       [Arr \<lparr>shape = [1, 2], dtype = Float64, elems = [Fin 1, Fin 2]\<rparr>,
        Arr \<lparr>shape = [1, 3], dtype = Float64, elems = [Fin 3, Fin 4, Fin 5]\<rparr>] Map.empty
     = Inl ValueError"
  by (simp add: DistributeEditor_call_def DistributeEditor_convertData_def and_then_def
        np_concatenate_def kwargs_clash_def)

text \<open>
  Claim C7, amended. For one input or more: when the run of the sub-pipeline on
  every input returns an array with at least one axis, and the arrays agree in shape
  behind the leading axis, \<^verbatim>\<open>DistributeEditor.call\<close> returns their concatenation
  along the leading axis in input order: the leading axis is the sum of theirs, and
  the elements of the result of input \<open>j\<close> stand behind those of the inputs before
  it. Results with the leading axes 1, 2 and 1 give the leading axis 4. The call
  returns in no other case: whenever it returns, there was an input, every run
  returned such an array, and the output is that concatenation; on no input it
  never returns.
\<close>

theorem DistributeEditor_call_concatenates_in_order:
  "(\<not> kwargs_clash kwargs \<and> rs \<noteq> [] \<and> length rs = length data
      \<and> (\<forall>i<length data.
            DistributeEditor_convertData editors (data ! i) kwargs = Inr (Arr (rs ! i)))
      \<and> (\<forall>r\<in>set rs. shape r \<noteq> [] \<and> tl (shape r) = tl (shape (hd rs)))
    \<longrightarrow> DistributeEditor_call editors data kwargs = Inr (Plain (Arr
              \<lparr>shape = sum_list (map (\<lambda>r. hd (shape r)) rs) # tl (shape (hd rs)),
                     dtype = result_type rs, elems = concat (map elems rs)\<rparr>))
      \<and> (\<forall>j<length rs.
            take (length (elems (rs ! j)))
              (drop (length (concat (map elems (take j rs)))) (concat (map elems rs)))
              = elems (rs ! j))
      \<and> (map (\<lambda>r. hd (shape r)) rs = [1, 2, 1] \<longrightarrow>
            (\<exists>out. DistributeEditor_call editors data kwargs = Inr (Plain (Arr out))
                 \<and> hd (shape out) = 4
                 \<and> elems out = elems (rs ! 0) @ elems (rs ! 1) @ elems (rs ! 2))))
   \<and> (DistributeEditor_call editors data kwargs = Inr res \<longrightarrow>
        data \<noteq> [] \<and> (\<exists>rs. \<not> kwargs_clash kwargs \<and> rs \<noteq> [] \<and> length rs = length data
        \<and> (\<forall>i<length data.
              DistributeEditor_convertData editors (data ! i) kwargs = Inr (Arr (rs ! i)))
        \<and> (\<forall>r\<in>set rs. shape r \<noteq> [] \<and> tl (shape r) = tl (shape (hd rs)))
        \<and> res = Plain (Arr
              \<lparr>shape = sum_list (map (\<lambda>r. hd (shape r)) rs) # tl (shape (hd rs)),
                     dtype = result_type rs, elems = concat (map elems rs)\<rparr>)))
   \<and> DistributeEditor_call editors [] kwargs \<noteq> Inr res"
proof -
  have fwd: "DistributeEditor_call editors data kwargs = Inr (Plain (Arr
              \<lparr>shape = sum_list (map (\<lambda>r. hd (shape r)) rs) # tl (shape (hd rs)),
                     dtype = result_type rs, elems = concat (map elems rs)\<rparr>))
      \<and> (\<forall>j<length rs.
            take (length (elems (rs ! j)))
              (drop (length (concat (map elems (take j rs)))) (concat (map elems rs)))
              = elems (rs ! j))
      \<and> (map (\<lambda>r. hd (shape r)) rs = [1, 2, 1] \<longrightarrow>
            (\<exists>out. DistributeEditor_call editors data kwargs = Inr (Plain (Arr out))
                 \<and> hd (shape out) = 4
                 \<and> elems out = elems (rs ! 0) @ elems (rs ! 1) @ elems (rs ! 2)))"
    if h: "\<not> kwargs_clash kwargs \<and> rs \<noteq> [] \<and> length rs = length data
      \<and> (\<forall>i<length data.
            DistributeEditor_convertData editors (data ! i) kwargs = Inr (Arr (rs ! i)))
      \<and> (\<forall>r\<in>set rs. shape r \<noteq> [] \<and> tl (shape r) = tl (shape (hd rs)))"
  proof -
    from h have call:   "DistributeEditor_call editors data kwargs = Inr (Plain (Arr
              \<lparr>shape = sum_list (map (\<lambda>r. hd (shape r)) rs) # tl (shape (hd rs)),
                       dtype = result_type rs, elems = concat (map elems rs)\<rparr>))"
      by (intro DistributeEditor_call_forward) blast+
    have blocks: "\<forall>j<length rs.
              take (length (elems (rs ! j)))
                (drop (length (concat (map elems (take j rs)))) (concat (map elems rs)))
                = elems (rs ! j)"
    proof (intro allI impI)
      fix j assume j: "j < length rs"
      then have "j < length (map elems rs)" by simp
      from concat_block[OF this] j show "take (length (elems (rs ! j)))
                (drop (length (concat (map elems (take j rs)))) (concat (map elems rs)))
                = elems (rs ! j)"
        by (simp add: take_map)
    qed
    have three: "\<exists>out. DistributeEditor_call editors data kwargs = Inr (Plain (Arr out))
                   \<and> hd (shape out) = 4
                   \<and> elems out = elems (rs ! 0) @ elems (rs ! 1) @ elems (rs ! 2)"
      if m: "map (\<lambda>r. hd (shape r)) rs = [1, 2, 1]"
      using call three_blocks[OF m] by simp
    from call blocks three show ?thesis by blast
  qed
  have bwd: "data \<noteq> [] \<and> (\<exists>rs. \<not> kwargs_clash kwargs \<and> rs \<noteq> [] \<and> length rs = length data
        \<and> (\<forall>i<length data.
              DistributeEditor_convertData editors (data ! i) kwargs = Inr (Arr (rs ! i)))
        \<and> (\<forall>r\<in>set rs. shape r \<noteq> [] \<and> tl (shape r) = tl (shape (hd rs)))
        \<and> res = Plain (Arr
              \<lparr>shape = sum_list (map (\<lambda>r. hd (shape r)) rs) # tl (shape (hd rs)),
                     dtype = result_type rs, elems = concat (map elems rs)\<rparr>))"
    if call: "DistributeEditor_call editors data kwargs = Inr res"
  proof -
    from DistributeEditor_call_returns[OF call]
    obtain xs out where nc: "\<not> kwargs_clash kwargs"
      and c: "collect (map (\<lambda>d. DistributeEditor_convertData editors d kwargs) data) = Inr xs"
      and o: "np_concatenate xs = Inr out" and res: "res = Plain (Arr out)"
      by blast
    from np_concatenate_returns[OF o]
    obtain rs where xs: "xs = map Arr rs" and ne: "rs \<noteq> []"
      and sh: "\<forall>a\<in>set rs. shape a \<noteq> [] \<and> tl (shape a) = tl (shape (hd rs))"
      and out: "out = \<lparr>shape = sum_list (map (\<lambda>r. hd (shape r)) rs) # tl (shape (hd rs)),
                       dtype = result_type rs, elems = concat (map elems rs)\<rparr>"
      by blast
    from collect_returns[OF c] xs
    have len: "length rs = length data"
      and each: "\<forall>i<length data. DistributeEditor_convertData editors (data ! i) kwargs = Inr (xs ! i)"
      by simp_all
    have runs: "\<forall>i<length data.
              DistributeEditor_convertData editors (data ! i) kwargs = Inr (Arr (rs ! i))"
      using each xs len by simp
    from ne len have "data \<noteq> []" by auto
    with nc ne len runs sh res out show ?thesis by blast
  qed
  show ?thesis
    apply (rule conjI)
     apply (rule impI, erule fwd)
    apply (rule conjI)
     apply (rule impI, erule bwd)
    apply (rule DistributeEditor_call_empty)
    done
qed


theorem DistributeEditor_call_concatenates_in_order_witness:
  "\<not> kwargs_clash (Map.empty :: unit pyobj kwargs)
   \<and> DistributeEditor_convertData [returns_seen, remember_input]
       (Arr \<lparr>shape = [1, 2], dtype = Float64, elems = [Fin 1, Fin 2]\<rparr> :: unit pyobj) Map.empty
       = Inr (Arr \<lparr>shape = [1, 2], dtype = Float64, elems = [Fin 1, Fin 2]\<rparr>)
   \<and> DistributeEditor_convertData [returns_seen, remember_input]
       (Arr \<lparr>shape = [2, 2], dtype = Float64, elems = [Fin 3, Fin 4, Fin 5, Fin 6]\<rparr> :: unit pyobj) Map.empty
       = Inr (Arr \<lparr>shape = [2, 2], dtype = Float64, elems = [Fin 3, Fin 4, Fin 5, Fin 6]\<rparr>)
   \<and> DistributeEditor_convertData [returns_seen, remember_input]
       (Arr \<lparr>shape = [1, 2], dtype = Float64, elems = [Fin 7, Fin 8]\<rparr> :: unit pyobj) Map.empty
       = Inr (Arr \<lparr>shape = [1, 2], dtype = Float64, elems = [Fin 7, Fin 8]\<rparr>)
   \<and> map (\<lambda>r. hd (shape r)) [\<lparr>shape = [1, 2], dtype = Float64, elems = [Fin 1, Fin 2]\<rparr>,
      \<lparr>shape = [2, 2], dtype = Float64, elems = [Fin 3, Fin 4, Fin 5, Fin 6]\<rparr>,
      \<lparr>shape = [1, 2], dtype = Float64, elems = [Fin 7, Fin 8]\<rparr>] = [1, 2, 1]
   \<and> DistributeEditor_call [returns_seen, remember_input] [Arr \<lparr>shape = [1, 2], dtype = Float64, elems = [Fin 1, Fin 2]\<rparr>,
      Arr \<lparr>shape = [2, 2], dtype = Float64, elems = [Fin 3, Fin 4, Fin 5, Fin 6]\<rparr>,
      Arr \<lparr>shape = [1, 2], dtype = Float64, elems = [Fin 7, Fin 8]\<rparr> :: unit pyobj] Map.empty
       = Inr (Plain (Arr \<lparr>shape = [4, 2], dtype = Float64,
             elems = [Fin 1, Fin 2, Fin 3, Fin 4, Fin 5, Fin 6, Fin 7, Fin 8]\<rparr>))"
proof -
  have hh: "\<not> kwargs_clash (Map.empty :: unit pyobj kwargs) \<and> [\<lparr>shape = [1, 2], dtype = Float64, elems = [Fin 1, Fin 2]\<rparr>,
      \<lparr>shape = [2, 2], dtype = Float64, elems = [Fin 3, Fin 4, Fin 5, Fin 6]\<rparr>,
      \<lparr>shape = [1, 2], dtype = Float64, elems = [Fin 7, Fin 8]\<rparr>] \<noteq> [] \<and> length [\<lparr>shape = [1, 2], dtype = Float64, elems = [Fin 1, Fin 2]\<rparr>,
      \<lparr>shape = [2, 2], dtype = Float64, elems = [Fin 3, Fin 4, Fin 5, Fin 6]\<rparr>,
      \<lparr>shape = [1, 2], dtype = Float64, elems = [Fin 7, Fin 8]\<rparr>] = length [Arr \<lparr>shape = [1, 2], dtype = Float64, elems = [Fin 1, Fin 2]\<rparr>,
      Arr \<lparr>shape = [2, 2], dtype = Float64, elems = [Fin 3, Fin 4, Fin 5, Fin 6]\<rparr>,
      Arr \<lparr>shape = [1, 2], dtype = Float64, elems = [Fin 7, Fin 8]\<rparr> :: unit pyobj]
      \<and> (\<forall>i<length [Arr \<lparr>shape = [1, 2], dtype = Float64, elems = [Fin 1, Fin 2]\<rparr>,
      Arr \<lparr>shape = [2, 2], dtype = Float64, elems = [Fin 3, Fin 4, Fin 5, Fin 6]\<rparr>,
      Arr \<lparr>shape = [1, 2], dtype = Float64, elems = [Fin 7, Fin 8]\<rparr> :: unit pyobj].
            DistributeEditor_convertData [returns_seen, remember_input] ([Arr \<lparr>shape = [1, 2], dtype = Float64, elems = [Fin 1, Fin 2]\<rparr>,
      Arr \<lparr>shape = [2, 2], dtype = Float64, elems = [Fin 3, Fin 4, Fin 5, Fin 6]\<rparr>,
      Arr \<lparr>shape = [1, 2], dtype = Float64, elems = [Fin 7, Fin 8]\<rparr> :: unit pyobj] ! i) Map.empty = Inr (Arr ([\<lparr>shape = [1, 2], dtype = Float64, elems = [Fin 1, Fin 2]\<rparr>,
      \<lparr>shape = [2, 2], dtype = Float64, elems = [Fin 3, Fin 4, Fin 5, Fin 6]\<rparr>,
      \<lparr>shape = [1, 2], dtype = Float64, elems = [Fin 7, Fin 8]\<rparr>] ! i)))
      \<and> (\<forall>r\<in>set [\<lparr>shape = [1, 2], dtype = Float64, elems = [Fin 1, Fin 2]\<rparr>,
      \<lparr>shape = [2, 2], dtype = Float64, elems = [Fin 3, Fin 4, Fin 5, Fin 6]\<rparr>,
      \<lparr>shape = [1, 2], dtype = Float64, elems = [Fin 7, Fin 8]\<rparr>]. shape r \<noteq> [] \<and> tl (shape r) = tl (shape (hd [\<lparr>shape = [1, 2], dtype = Float64, elems = [Fin 1, Fin 2]\<rparr>,
      \<lparr>shape = [2, 2], dtype = Float64, elems = [Fin 3, Fin 4, Fin 5, Fin 6]\<rparr>,
      \<lparr>shape = [1, 2], dtype = Float64, elems = [Fin 7, Fin 8]\<rparr>])))"
    by (auto simp add: kwargs_clash_def less_Suc_eq returns_seen_remember_input_run)
  note t = DistributeEditor_call_concatenates_in_order
     [where editors = "[returns_seen, remember_input]" and kwargs = Map.empty
        and data = "[Arr \<lparr>shape = [1, 2], dtype = Float64, elems = [Fin 1, Fin 2]\<rparr>,
      Arr \<lparr>shape = [2, 2], dtype = Float64, elems = [Fin 3, Fin 4, Fin 5, Fin 6]\<rparr>,
      Arr \<lparr>shape = [1, 2], dtype = Float64, elems = [Fin 7, Fin 8]\<rparr> :: unit pyobj]"
        and rs = "[\<lparr>shape = [1, 2], dtype = Float64, elems = [Fin 1, Fin 2]\<rparr>,
      \<lparr>shape = [2, 2], dtype = Float64, elems = [Fin 3, Fin 4, Fin 5, Fin 6]\<rparr>,
      \<lparr>shape = [1, 2], dtype = Float64, elems = [Fin 7, Fin 8]\<rparr>]"
        and res = "Plain (Arr \<lparr>shape = [4, 2], dtype = Float64,
             elems = [Fin 1, Fin 2, Fin 3, Fin 4, Fin 5, Fin 6, Fin 7, Fin 8]\<rparr>)"]
  note c = mp[OF conjunct1[OF t] hh]
  have call: "DistributeEditor_call [returns_seen, remember_input] [Arr \<lparr>shape = [1, 2], dtype = Float64, elems = [Fin 1, Fin 2]\<rparr>,
      Arr \<lparr>shape = [2, 2], dtype = Float64, elems = [Fin 3, Fin 4, Fin 5, Fin 6]\<rparr>,
      Arr \<lparr>shape = [1, 2], dtype = Float64, elems = [Fin 7, Fin 8]\<rparr> :: unit pyobj] Map.empty
       = Inr (Plain (Arr \<lparr>shape = [4, 2], dtype = Float64,
             elems = [Fin 1, Fin 2, Fin 3, Fin 4, Fin 5, Fin 6, Fin 7, Fin 8]\<rparr>))"
    using c[THEN conjunct1] by (simp add: result_type_def)
  have m: "map (\<lambda>r. hd (shape r)) [\<lparr>shape = [1, 2], dtype = Float64, elems = [Fin 1, Fin 2]\<rparr>,
      \<lparr>shape = [2, 2], dtype = Float64, elems = [Fin 3, Fin 4, Fin 5, Fin 6]\<rparr>,
      \<lparr>shape = [1, 2], dtype = Float64, elems = [Fin 7, Fin 8]\<rparr>] = [1, 2, 1]" by simp
  have nc: "\<not> kwargs_clash (Map.empty :: unit pyobj kwargs)"
    by (simp add: kwargs_clash_def)
  show ?thesis
    by (intro conjI nc returns_seen_remember_input_run m call)
qed

section \<open>Selection and order of the frames\<close>









lemma list_ex_rel:
  assumes "\<And>a b. R a b \<Longrightarrow> P a = P b"
  shows "list_all2 R xs ys \<Longrightarrow> list_ex P xs = list_ex P ys"
  by (induction xs ys rule: list_all2_induct) (simp_all add: assms)


lemma same_frame_refl: "same_frame a a"
  by (simp add: same_frame_def)













end
